theory Spec2Isabelle
  imports Main
begin

section \<open>The bucket beam of the HTTP/2 module\<close>

text \<open>A model of \<open>h2_bucket_beam.c\<close>: the beam that carries buckets from a sender
  thread to a receiver thread.\<close>

subsection \<open>Buckets, status codes and the beam\<close>

text \<open>
  A bucket is identified by its address (\<open>bid\<close>). The type tag follows the
  \<open>APR_BUCKET_IS_*\<close> tests the beam makes: heap, file and mmap data, the metadata
  kinds EOS, FLUSH and ERROR, any other metadata, any other data (pool, transient,
  pipe, ...) and the beam's own proxy type \<open>h2_bucket_type_beam\<close>.
  \<open>blength\<close> is the \<open>apr_size_t\<close> length; \<open>APR_SIZE_MAX\<close> stands for
  \<open>(apr_size_t)-1\<close>, the unknown length. \<open>frefcount\<close> is
  \<open>bf->refcount.refcount\<close> of a file bucket, \<open>bdata\<close> the address of the
  \<open>h2_beam_proxy\<close> of a proxy bucket.
\<close>

datatype btype = HEAP | FILE | MMAP | EOS | FLUSH | ERROR | META_OTHER | DATA_OTHER | BEAM

record bucket =
  bid :: nat
  btype :: btype
  blength :: nat
  bstart :: nat
  frefcount :: int
  bdata :: nat

datatype apr_status =
  APR_SUCCESS | APR_EAGAIN | APR_EOF | APR_ECONNABORTED | APR_ECONNRESET
  | APR_TIMEUP | APR_EINVAL | APR_EGENERAL

datatype apr_read_type_e = APR_BLOCK_READ | APR_NONBLOCK_READ

text \<open>What stops a call from returning: a failed \<open>ap_assert\<close> (the process aborts),
  a freed proxy that is still referenced, a wait that is never woken again, or a loop
  that is still running when the fuel given to it is used up.\<close>

datatype error = Assert_failed | Dangling_proxy | Blocked | Out_of_fuel

definition APR_SIZE_MAX :: nat where
  "APR_SIZE_MAX = 2 ^ 64 - 1"

text \<open>
  \<open>apr_off_t\<close> is a signed and \<open>apr_size_t\<close> an unsigned 64-bit integer.
  \<open>to_off\<close> is the conversion to \<open>apr_off_t\<close> (two's complement), \<open>off_sub\<close> the
  statement \<open>remain -= length\<close> and \<open>to_size\<close> the cast to \<open>apr_size_t\<close>.
\<close>

definition to_off :: "int \<Rightarrow> int" where
  "to_off x = (x + 2 ^ 63) mod 2 ^ 64 - 2 ^ 63"

definition off_sub :: "int \<Rightarrow> nat \<Rightarrow> int" where
  "off_sub r n = to_off (r - int n)"

definition to_size :: "int \<Rightarrow> nat" where
  "to_size x = nat (x mod 2 ^ 64)"

definition APR_BUCKET_IS_METADATA :: "bucket \<Rightarrow> bool" where
  "APR_BUCKET_IS_METADATA b = (btype b \<in> {EOS, FLUSH, ERROR, META_OTHER})"

definition APR_BUCKET_IS_FILE :: "bucket \<Rightarrow> bool" where
  "APR_BUCKET_IS_FILE b = (btype b = FILE)"

definition APR_BUCKET_IS_MMAP :: "bucket \<Rightarrow> bool" where
  "APR_BUCKET_IS_MMAP b = (btype b = MMAP)"

definition APR_BUCKET_IS_HEAP :: "bucket \<Rightarrow> bool" where
  "APR_BUCKET_IS_HEAP b = (btype b = HEAP)"

definition H2_BUCKET_IS_BEAM :: "bucket \<Rightarrow> bool" where
  "H2_BUCKET_IS_BEAM b = (btype b = BEAM)"

text \<open>\<open>struct h2_beam_proxy\<close>: \<open>p_beam\<close> tells whether \<open>d->beam\<close> is non-null,
  \<open>p_bsender\<close> is the address of the sender bucket, if any.\<close>

record h2_beam_proxy =
  p_refcount :: int
  p_beam :: bool
  p_bsender :: "nat option"
  p_n :: nat

datatype cb_event = Cons_io int | Cons_ev | Was_empty | Send_block

text \<open>
  The beam, together with the proxy objects the receiver has allocated
  (\<open>proxy_objs\<close>, by address; \<open>proxies\<close> is the beam's ring of them).
  A callback field tells whether the callback is set; \<open>cb_log\<close> records the calls made.
  \<open>recv_buffer\<close> is \<open>None\<close> for the null pointer.
\<close>

record beam =
  send_list :: "bucket list"
  hold_list :: "bucket list"
  purge_list :: "bucket list"
  proxies :: "nat list"
  proxy_objs :: "nat \<Rightarrow> h2_beam_proxy option"
  recv_buffer :: "bucket list option"
  sent_bytes :: int
  received_bytes :: int
  cons_bytes_reported :: int
  buckets_sent :: nat
  max_buf_size :: nat
  timeout :: int
  copy_files :: bool
  tx_mem_limits :: bool
  closed :: bool
  aborted :: bool
  close_sent :: bool
  cons_ev_cb :: bool
  cons_io_cb :: bool
  was_empty_cb :: bool
  send_block_cb :: bool
  cb_log :: "cb_event list"
  next_addr :: nat

subsection \<open>The emitted protocol\<close>

text \<open>The second loop of \<open>h2_beam_emitted\<close>: walk the hold from its head; the
  referenced bucket goes to the purge list and ends the walk, a metadata bucket before
  it goes to the purge list, a data bucket before it stays.\<close>

fun emit_walk :: "nat \<Rightarrow> bucket list \<Rightarrow> bucket list \<Rightarrow> bucket list \<times> bucket list" where
  "emit_walk sid [] purge = ([], purge)"
| "emit_walk sid (b # bs) purge =
     (if bid b = sid then (bs, purge @ [b])
      else if APR_BUCKET_IS_METADATA b then emit_walk sid bs (purge @ [b])
      else (case emit_walk sid bs purge of (hold', purge') \<Rightarrow> (b # hold', purge')))"

text \<open>The first loop: is the sender bucket in the hold?\<close>

fun in_hold :: "nat \<Rightarrow> bucket list \<Rightarrow> bool" where
  "in_hold sid [] = False"
| "in_hold sid (b # bs) = (if bid b = sid then True else in_hold sid bs)"

definition h2_beam_emitted :: "beam \<Rightarrow> nat \<Rightarrow> error + beam" where
  "h2_beam_emitted s pid =
     (case proxy_objs s pid of
        None \<Rightarrow> Inl Dangling_proxy
      | Some d \<Rightarrow>
          let s1 = s\<lparr>proxies := remove1 pid (proxies s)\<rparr> in
          (case p_bsender d of
             None \<Rightarrow> Inr s1
           | Some sid \<Rightarrow>
               if in_hold sid (hold_list s1) then
                 (case emit_walk sid (hold_list s1) (purge_list s1) of
                    (hold', purge') \<Rightarrow>
                      Inr (s1\<lparr>hold_list := hold', purge_list := purge',
                              proxy_objs := (proxy_objs s1)(pid \<mapsto> d\<lparr>p_bsender := None\<rparr>)\<rparr>))
               else Inl Assert_failed))"

subsection \<open>Purging, accounting and the buffer tests\<close>

text \<open>Deleting a sender-side bucket frees it; the buckets the sender hands in are its
  own, none of them a proxy of this beam, so the deletion changes nothing else here.\<close>

definition r_purge_sent :: "beam \<Rightarrow> beam" where
  "r_purge_sent s = s\<lparr>purge_list := []\<rparr>"

definition report_consumption :: "beam \<Rightarrow> bool \<times> beam" where
  "report_consumption s =
     (let len = to_off (received_bytes s - cons_bytes_reported s) in
      if len > 0 then
        (if cons_io_cb s
         then (True, s\<lparr>cb_log := cb_log s @ [Cons_io len],
                        cons_bytes_reported := to_off (cons_bytes_reported s + len)\<rparr>)
         else (False, s\<lparr>cons_bytes_reported := to_off (cons_bytes_reported s + len)\<rparr>))
      else (False, s))"

text \<open>\<open>calc_buffered\<close> adds up \<open>apr_size_t\<close> values, so the sum wraps at \<open>2^64\<close>.\<close>

fun calc_buffered_from :: "nat \<Rightarrow> bucket list \<Rightarrow> nat" where
  "calc_buffered_from len [] = len"
| "calc_buffered_from len (b # bs) =
     (if blength b = APR_SIZE_MAX then calc_buffered_from len bs
      else if APR_BUCKET_IS_FILE b \<or> APR_BUCKET_IS_MMAP b then calc_buffered_from len bs
      else calc_buffered_from ((len + blength b) mod 2 ^ 64) bs)"

definition calc_buffered :: "beam \<Rightarrow> nat" where
  "calc_buffered s = calc_buffered_from 0 (send_list s)"

definition calc_space_left :: "beam \<Rightarrow> nat" where
  "calc_space_left s =
     (if max_buf_size s > 0 then
        (let len = calc_buffered s in
         if max_buf_size s > len then max_buf_size s - len else 0)
      else APR_SIZE_MAX)"

definition buffer_is_empty :: "beam \<Rightarrow> bool" where
  "buffer_is_empty s =
     ((recv_buffer s = None \<or> recv_buffer s = Some []) \<and> send_list s = [])"

subsection \<open>Waiting on the condition variable\<close>

text \<open>
  While a thread waits the lock is released and the other side may change the beam.
  A wake-up carries that change; \<open>Timed_out\<close> is a wake-up by the timer, which only
  \<open>apr_thread_cond_timedwait\<close> reports (as \<open>APR_TIMEUP\<close>). The list holds the
  wake-ups still to come; a wait with none left never returns (\<open>Blocked\<close>).
\<close>

datatype wake = Wake "beam \<Rightarrow> beam" | Timed_out "beam \<Rightarrow> beam"

fun cond_wait :: "wake \<Rightarrow> beam \<Rightarrow> apr_status \<times> beam" where
  "cond_wait (Wake f) s = (APR_SUCCESS, f s)"
| "cond_wait (Timed_out f) s =
     (if timeout s > 0 then (APR_TIMEUP, f s) else (APR_SUCCESS, f s))"

fun wait_empty ::
  "beam \<Rightarrow> apr_read_type_e \<Rightarrow> wake list \<Rightarrow> error + (apr_status \<times> beam \<times> wake list)" where
  "wait_empty s block [] =
     (if \<not> buffer_is_empty s then
        (if block \<noteq> APR_BLOCK_READ then Inr (APR_EAGAIN, s, []) else Inl Blocked)
      else Inr (APR_SUCCESS, s, []))"
| "wait_empty s block (w # ws) =
     (if \<not> buffer_is_empty s then
        (if block \<noteq> APR_BLOCK_READ then Inr (APR_EAGAIN, s, w # ws)
         else (case cond_wait w s of
                 (rv, s') \<Rightarrow>
                   if rv = APR_SUCCESS then wait_empty s' block ws else Inr (rv, s', ws)))
      else Inr (APR_SUCCESS, s, w # ws))"

fun wait_not_empty ::
  "beam \<Rightarrow> apr_read_type_e \<Rightarrow> wake list \<Rightarrow> error + (apr_status \<times> beam \<times> wake list)" where
  "wait_not_empty s block [] =
     (if buffer_is_empty s then
        (if aborted s then Inr (APR_ECONNABORTED, s, [])
         else if closed s then Inr (APR_EOF, s, [])
         else if block \<noteq> APR_BLOCK_READ then Inr (APR_EAGAIN, s, [])
         else Inl Blocked)
      else Inr (APR_SUCCESS, s, []))"
| "wait_not_empty s block (w # ws) =
     (if buffer_is_empty s then
        (if aborted s then Inr (APR_ECONNABORTED, s, w # ws)
         else if closed s then Inr (APR_EOF, s, w # ws)
         else if block \<noteq> APR_BLOCK_READ then Inr (APR_EAGAIN, s, w # ws)
         else (case cond_wait w s of
                 (rv, s') \<Rightarrow>
                   if rv = APR_SUCCESS then wait_not_empty s' block ws else Inr (rv, s', ws)))
      else Inr (APR_SUCCESS, s, w # ws))"

definition send_block_call :: "beam \<Rightarrow> beam" where
  "send_block_call s = (if send_block_cb s then s\<lparr>cb_log := cb_log s @ [Send_block]\<rparr> else s)"

text \<open>\<open>wait_not_full\<close> returns the status, the space left and the beam.\<close>

fun wait_not_full ::
  "beam \<Rightarrow> apr_read_type_e \<Rightarrow> wake list
     \<Rightarrow> error + (apr_status \<times> nat \<times> beam \<times> wake list)" where
  "wait_not_full s block [] =
     (let left = calc_space_left s in
      if left = 0 then
        (if aborted s then Inr (APR_ECONNABORTED, left, s, [])
         else if block \<noteq> APR_BLOCK_READ then Inr (APR_EAGAIN, left, s, [])
         else Inl Blocked)
      else Inr (APR_SUCCESS, left, s, []))"
| "wait_not_full s block (w # ws) =
     (let left = calc_space_left s in
      if left = 0 then
        (if aborted s then Inr (APR_ECONNABORTED, left, s, w # ws)
         else if block \<noteq> APR_BLOCK_READ then Inr (APR_EAGAIN, left, s, w # ws)
         else (case cond_wait w (send_block_call s) of
                 (rv, s') \<Rightarrow>
                   if rv = APR_SUCCESS then wait_not_full s' block ws
                   else Inr (rv, calc_space_left s', s', ws)))
      else Inr (APR_SUCCESS, left, s, w # ws))"

definition h2_beam_wait_empty ::
  "beam \<Rightarrow> apr_read_type_e \<Rightarrow> wake list \<Rightarrow> error + (apr_status \<times> beam \<times> wake list)" where
  "h2_beam_wait_empty s block env = wait_empty s block env"

subsection \<open>Proxy buckets\<close>

text \<open>
  \<open>beam_bucket_read\<close> returns the status and \<open>*len\<close>. Reading the sender bucket is
  the bucket library's work: \<open>rd\<close> gives its status and length for a sender address.
\<close>

definition beam_bucket_read ::
  "(nat \<Rightarrow> apr_status \<times> nat) \<Rightarrow> beam \<Rightarrow> bucket \<Rightarrow> error + (apr_status \<times> nat)" where
  "beam_bucket_read rd s b =
     (case proxy_objs s (bdata b) of
        None \<Rightarrow> Inl Dangling_proxy
      | Some d \<Rightarrow>
          (case p_bsender d of
             Some sid \<Rightarrow>
               (case rd sid of
                  (status, len) \<Rightarrow>
                    if status = APR_SUCCESS then Inr (status, blength b)
                    else Inr (status, len))
           | None \<Rightarrow> Inr (APR_ECONNRESET, 0)))"

text \<open>\<open>apr_bucket_shared_destroy\<close> decrements the count and tells whether it reached
  zero; \<open>apr_bucket_free\<close> then removes the proxy object.\<close>

definition beam_bucket_destroy :: "beam \<Rightarrow> nat \<Rightarrow> error + beam" where
  "beam_bucket_destroy s pid =
     (case proxy_objs s pid of
        None \<Rightarrow> Inl Dangling_proxy
      | Some d \<Rightarrow>
          let d' = d\<lparr>p_refcount := p_refcount d - 1\<rparr>;
              s1 = s\<lparr>proxy_objs := (proxy_objs s)(pid \<mapsto> d')\<rparr>
          in if p_refcount d' = 0 then
               (case (if p_beam d' then h2_beam_emitted s1 pid else Inr s1) of
                  Inl e \<Rightarrow> Inl e
                | Inr s2 \<Rightarrow> Inr (s2\<lparr>proxy_objs := (proxy_objs s2)(pid := None)\<rparr>))
             else Inr s1)"

text \<open>Destroying a receiver-side bucket: only a proxy bucket has a destructor that
  reaches the beam.\<close>

definition apr_bucket_destroy :: "beam \<Rightarrow> bucket \<Rightarrow> error + beam" where
  "apr_bucket_destroy s b =
     (if H2_BUCKET_IS_BEAM b then beam_bucket_destroy s (bdata b) else Inr s)"

fun apr_brigade_destroy :: "beam \<Rightarrow> bucket list \<Rightarrow> error + beam" where
  "apr_brigade_destroy s [] = Inr s"
| "apr_brigade_destroy s (b # bs) =
     (case apr_bucket_destroy s b of
        Inl e \<Rightarrow> Inl e
      | Inr s' \<Rightarrow> apr_brigade_destroy s' bs)"

text \<open>\<open>apr_brigade_length(bb, 0, &len)\<close>: \<open>-1\<close> as soon as one length is unknown.\<close>

definition apr_brigade_length :: "bucket list \<Rightarrow> int" where
  "apr_brigade_length bb =
     (if list_ex (\<lambda>b. blength b = APR_SIZE_MAX) bb then - 1
      else int (sum_list (map blength bb)))"

subsection \<open>Cleanup, abort and close\<close>

text \<open>\<open>recv_buffer_cleanup\<close> destroys the brigade with the lock released; the model
  takes no other thread to run in between, only the proxy destructors themselves.\<close>

definition recv_buffer_cleanup :: "beam \<Rightarrow> error + beam" where
  "recv_buffer_cleanup s =
     (case recv_buffer s of
        None \<Rightarrow> Inr s
      | Some bb \<Rightarrow>
          if bb \<noteq> [] then
            (let s1 = s\<lparr>recv_buffer := None,
                         received_bytes := to_off (received_bytes s + apr_brigade_length bb)\<rparr>
             in case apr_brigade_destroy s1 bb of
                  Inl e \<Rightarrow> Inl e
                | Inr s2 \<Rightarrow>
                    Inr (if cons_ev_cb s2 then s2\<lparr>cb_log := cb_log s2 @ [Cons_ev]\<rparr> else s2))
          else Inr s)"

fun detach_proxies :: "nat list \<Rightarrow> (nat \<Rightarrow> h2_beam_proxy option) \<Rightarrow> (nat \<Rightarrow> h2_beam_proxy option)" where
  "detach_proxies [] objs = objs"
| "detach_proxies (pid # pids) objs =
     detach_proxies pids
       (case objs pid of
          None \<Rightarrow> objs
        | Some d \<Rightarrow> objs(pid \<mapsto> d\<lparr>p_beam := False, p_bsender := None\<rparr>))"

definition beam_send_cleanup :: "beam \<Rightarrow> beam" where
  "beam_send_cleanup s =
     (let s1 = r_purge_sent s;
          s2 = s1\<lparr>send_list := []\<rparr>;
          s3 = snd (report_consumption s2);
          s4 = s3\<lparr>proxy_objs := detach_proxies (proxies s3) (proxy_objs s3), proxies := []\<rparr>
      in s4\<lparr>purge_list := [], hold_list := []\<rparr>)"

definition beam_cleanup :: "beam \<Rightarrow> bool \<Rightarrow> beam" where
  "beam_cleanup s from_pool =
     (let s1 = (if from_pool then s\<lparr>cons_io_cb := False\<rparr> else s);
          s2 = s1\<lparr>recv_buffer := None\<rparr>
      in beam_send_cleanup s2)"

definition h2_beam_destroy :: "beam \<Rightarrow> beam" where
  "h2_beam_destroy s = beam_cleanup s False"

text \<open>\<open>is_sender\<close> stands for \<open>c == beam->from\<close>.\<close>

definition h2_beam_abort :: "beam \<Rightarrow> bool \<Rightarrow> error + beam" where
  "h2_beam_abort s is_sender =
     (let s1 = s\<lparr>aborted := True\<rparr> in
      if is_sender then
        (let s2 = (if was_empty_cb s1 \<and> buffer_is_empty s1
                   then s1\<lparr>cb_log := cb_log s1 @ [Was_empty]\<rparr> else s1);
             s3 = s2\<lparr>cons_ev_cb := False, cons_io_cb := False\<rparr>;
             s4 = r_purge_sent s3;
             s5 = s4\<lparr>send_list := []\<rparr>
         in Inr (snd (report_consumption s5)))
      else recv_buffer_cleanup s1)"

definition h2_beam_close :: "beam \<Rightarrow> bool \<Rightarrow> error + (apr_status \<times> beam)" where
  "h2_beam_close s is_sender =
     (let s1 = s\<lparr>closed := True\<rparr> in
      case (if is_sender then
              (let s2 = r_purge_sent s1;
                   s3 = snd (report_consumption s2)
               in Inr (if was_empty_cb s3 \<and> buffer_is_empty s3
                       then s3\<lparr>cb_log := cb_log s3 @ [Was_empty]\<rparr> else s3))
            else
              (case recv_buffer_cleanup s1 of
                 Inl e \<Rightarrow> Inl e
               | Inr s2 \<Rightarrow> Inr (s2\<lparr>aborted := True\<rparr>))) of
        Inl e \<Rightarrow> Inl e
      | Inr s4 \<Rightarrow> Inr (if aborted s4 then APR_ECONNABORTED else APR_SUCCESS, s4))"

subsection \<open>Sending\<close>

text \<open>
  The bucket library, as far as \<open>append_bucket\<close> uses it. \<open>bucket_read\<close> gives the
  status, the bucket as the read leaves it (a read may morph it and sets its length)
  and the buckets the read inserts behind it; \<open>bucket_setaside\<close> gives the status.
\<close>

record apr_lib =
  bucket_read :: "bucket \<Rightarrow> apr_status \<times> bucket \<times> bucket list"
  bucket_setaside :: "bucket \<Rightarrow> apr_status"

text \<open>
  \<open>apr_bucket_split(b, point)\<close>: metadata buckets cannot be split, and a point
  beyond the length is \<open>APR_EINVAL\<close> (\<open>None\<close>); otherwise \<open>b\<close> keeps the first
  \<open>point\<close> bytes and a new bucket at address \<open>a\<close> holds the rest. The two halves of a
  file bucket share the file, whose reference count grows by one.
\<close>

definition apr_bucket_split :: "nat \<Rightarrow> bucket \<Rightarrow> nat \<Rightarrow> (bucket \<times> bucket) option" where
  "apr_bucket_split a b point =
     (if APR_BUCKET_IS_METADATA b \<or> point > blength b then None
      else
        (let rc = (if APR_BUCKET_IS_FILE b then frefcount b + 1 else frefcount b)
         in Some (b\<lparr>blength := point, frefcount := rc\<rparr>,
                  b\<lparr>bid := a, blength := blength b - point,
                    bstart := bstart b + point, frefcount := rc\<rparr>)))"

text \<open>Subtraction of \<open>apr_size_t\<close> values wraps.\<close>

definition size_sub :: "nat \<Rightarrow> nat \<Rightarrow> nat" where
  "size_sub a b = (if b \<le> a then a - b else (a + 2 ^ 64 - b) mod 2 ^ 64)"

text \<open>\<open>move_to_hold\<close>, as the source has it: the buckets are appended to
  \<open>beam->send_list\<close>. A null brigade stays null.\<close>

definition move_to_hold :: "beam \<Rightarrow> bucket list option \<Rightarrow> beam \<times> bucket list option" where
  "move_to_hold s sender_bb =
     (case sender_bb of
        None \<Rightarrow> (s, None)
      | Some bb \<Rightarrow> (s\<lparr>send_list := send_list s @ bb\<rparr>, Some []))"

text \<open>The end of \<open>append_bucket\<close>: the bucket joins \<open>send_list\<close> and
  \<open>sent_bytes += b->length\<close>, an \<open>apr_off_t\<close> that takes an \<open>apr_size_t\<close>.\<close>

definition enqueue :: "beam \<Rightarrow> bucket \<Rightarrow> beam" where
  "enqueue s b = s\<lparr>send_list := send_list s @ [b],
                    sent_bytes := to_off (sent_bytes s + int (blength b))\<rparr>"

text \<open>
  \<open>append_bucket\<close> on the first bucket \<open>b\<close> of the sender's brigade, \<open>rest\<close> being
  the buckets behind it. It returns the status, the beam, the brigade and
  \<open>*pspace_left\<close>.
\<close>

definition append_bucket ::
  "apr_lib \<Rightarrow> beam \<Rightarrow> bucket \<Rightarrow> bucket list \<Rightarrow> nat
     \<Rightarrow> apr_status \<times> beam \<times> bucket list \<times> nat" where
  "append_bucket L s b rest space_left =
     (if aborted s then (APR_ECONNABORTED, s, b # rest, space_left)
      else if APR_BUCKET_IS_METADATA b then
        (APR_SUCCESS, s\<lparr>send_list := send_list s @ [b]\<rparr>, rest, space_left)
      else
        (let can_beam =
               (if APR_BUCKET_IS_FILE b then \<not> copy_files s \<and> frefcount b = 1
                else if APR_BUCKET_IS_MMAP b then \<not> copy_files s
                else False);
             check_len =
               (if APR_BUCKET_IS_FILE b \<or> APR_BUCKET_IS_MMAP b then \<not> can_beam else True)
         in
         case (if \<not> APR_BUCKET_IS_FILE b \<and> \<not> APR_BUCKET_IS_MMAP b
                  \<and> blength b = APR_SIZE_MAX
               then bucket_read L b else (APR_SUCCESS, b, [])) of
           (st1, b1, ins1) \<Rightarrow>
             if st1 \<noteq> APR_SUCCESS then (st1, s, b1 # ins1 @ rest, space_left)
             else
               (case (if check_len \<and> blength b1 > space_left
                      then (case apr_bucket_split (next_addr s) b1 space_left of
                              None \<Rightarrow> (b1, [], s)
                            | Some (h, t) \<Rightarrow> (h, [t], s\<lparr>next_addr := next_addr s + 1\<rparr>))
                      else (b1, [], s)) of
                  (b2, ins2, s2) \<Rightarrow>
                    let space2 = (if check_len then size_sub space_left (blength b2)
                                  else space_left);
                        behind = ins2 @ ins1 @ rest
                    in
                    if blength b2 = 0 then (APR_SUCCESS, s2, behind, space2)
                    else if APR_BUCKET_IS_HEAP b2 then
                      (let st = bucket_setaside L b2 in
                       if st \<noteq> APR_SUCCESS then (st, s2, b2 # behind, space2)
                       else (APR_SUCCESS, enqueue s2 b2, behind, space2))
                    else if can_beam \<and> (APR_BUCKET_IS_FILE b2 \<or> APR_BUCKET_IS_MMAP b2) then
                      (let st = bucket_setaside L b2 in
                       if st \<noteq> APR_SUCCESS then (st, s2, b2 # behind, space2)
                       else (APR_SUCCESS, enqueue s2 b2, behind, space2))
                    else
                      (case bucket_read L b2 of
                         (st, b3, ins3) \<Rightarrow>
                           if st \<noteq> APR_SUCCESS then (st, s2, b3 # ins3 @ behind, space2)
                           else (APR_SUCCESS,
                                 enqueue s2 (b3\<lparr>btype := HEAP, bstart := 0\<rparr>),
                                 ins3 @ behind, space2)))))"

text \<open>The loop of \<open>h2_beam_send\<close>. It returns the status, the beam, what is left of
  the brigade, \<open>was_empty\<close> and the wake-ups not used.\<close>

fun send_loop ::
  "nat \<Rightarrow> apr_lib \<Rightarrow> beam \<Rightarrow> bucket list \<Rightarrow> apr_read_type_e \<Rightarrow> wake list \<Rightarrow> bool \<Rightarrow> nat
     \<Rightarrow> error + (apr_status \<times> beam \<times> bucket list \<times> bool \<times> wake list)" where
  "send_loop fuel L s [] block env was_empty space_left =
     Inr (APR_SUCCESS, s, [], was_empty, env)"
| "send_loop 0 L s (b # rest) block env was_empty space_left = Inl Out_of_fuel"
| "send_loop (Suc fuel) L s (b # rest) block env was_empty space_left =
     (case (if space_left \<le> 0 then
              (let s1 = r_purge_sent s;
                   s2 = (if was_empty \<and> was_empty_cb s1
                         then s1\<lparr>cb_log := cb_log s1 @ [Was_empty]\<rparr> else s1)
               in case wait_not_full s2 block env of
                    Inl e \<Rightarrow> Inl e
                  | Inr (rv, left, s3, env') \<Rightarrow>
                      Inr (rv, left, s3, env',
                           if rv = APR_SUCCESS then buffer_is_empty s3 else was_empty))
            else Inr (APR_SUCCESS, space_left, s, env, was_empty)) of
        Inl e \<Rightarrow> Inl e
      | Inr (rv, left, s', env', was_empty') \<Rightarrow>
          if rv \<noteq> APR_SUCCESS then Inr (rv, s', b # rest, was_empty', env')
          else
            (case append_bucket L s' b rest left of
               (rv2, s'', bb', left') \<Rightarrow>
                 if rv2 = APR_SUCCESS
                 then send_loop fuel L s'' bb' block env' was_empty' left'
                 else Inr (rv2, s'', bb', was_empty', env')))"

text \<open>\<open>h2_beam_send\<close>; \<open>is_sender\<close> stands for \<open>beam->from == from\<close>, which the
  function asserts. A null \<open>sender_bb\<close> is \<open>None\<close>.\<close>

definition h2_beam_send ::
  "nat \<Rightarrow> apr_lib \<Rightarrow> beam \<Rightarrow> bool \<Rightarrow> bucket list option \<Rightarrow> apr_read_type_e \<Rightarrow> wake list
     \<Rightarrow> error + (apr_status \<times> beam \<times> bucket list option \<times> wake list)" where
  "h2_beam_send fuel L s is_sender sender_bb block env =
     (if \<not> is_sender then Inl Assert_failed
      else
        (let s1 = r_purge_sent s in
         case (if aborted s1 then
                 (case move_to_hold s1 sender_bb of
                    (s2, bb') \<Rightarrow> Inr (APR_ECONNABORTED, s2, bb', env))
               else if closed s1 then
                 (case move_to_hold s1 sender_bb of
                    (s2, bb') \<Rightarrow> Inr (APR_SUCCESS, s2, bb', env))
               else
                 (case sender_bb of
                    None \<Rightarrow> Inr (APR_SUCCESS, s1, None, env)
                  | Some bb \<Rightarrow>
                      (case send_loop fuel L s1 bb block env (buffer_is_empty s1)
                              (calc_space_left s1) of
                         Inl e \<Rightarrow> Inl e
                       | Inr (rv, s2, bb', was_empty, env') \<Rightarrow>
                           Inr (rv,
                                if was_empty \<and> was_empty_cb s2 \<and> \<not> buffer_is_empty s2
                                then s2\<lparr>cb_log := cb_log s2 @ [Was_empty]\<rparr> else s2,
                                Some bb', env')))) of
           Inl e \<Rightarrow> Inl e
         | Inr (rv, s3, bb', env') \<Rightarrow> Inr (rv, snd (report_consumption s3), bb', env')))"

subsection \<open>Receiving\<close>

text \<open>
  What \<open>h2_beam_receive\<close> needs from outside: \<open>file_setaside\<close> is the status of
  \<open>apr_file_setaside\<close> for a sender file bucket (success when the pools agree and
  nothing is done), \<open>beamers\<close> the buckets that the registered beamer functions
  append to the brigade for a sender bucket (none when no beamer takes it).
\<close>

record recv_lib =
  file_setaside :: "bucket \<Rightarrow> apr_status"
  beamers :: "bucket \<Rightarrow> bucket list"

text \<open>The first loop: buckets of \<open>recv_buffer\<close> go to the brigade. It returns what is
  left of \<open>recv_buffer\<close>, the brigade, \<open>remain\<close> and \<open>transferred\<close>.\<close>

fun recv_from_buffer ::
  "bucket list \<Rightarrow> bucket list \<Rightarrow> int \<Rightarrow> nat \<Rightarrow> bucket list \<times> bucket list \<times> int \<times> nat" where
  "recv_from_buffer [] bb remain transferred = ([], bb, remain, transferred)"
| "recv_from_buffer (brecv # rb) bb remain transferred =
     (if remain \<ge> 0 then
        (if blength brecv > 0 \<and> remain \<le> 0 then (brecv # rb, bb, remain, transferred)
         else recv_from_buffer rb (bb @ [brecv]) (off_sub remain (blength brecv))
                (transferred + 1))
      else (brecv # rb, bb, remain, transferred))"

text \<open>\<open>h2_beam_bucket_create\<close>: a new proxy object at address \<open>next_addr\<close>, linked
  into the ring, and the proxy bucket at the address after it.\<close>

definition h2_beam_bucket_create :: "beam \<Rightarrow> bucket \<Rightarrow> nat \<Rightarrow> beam \<times> bucket" where
  "h2_beam_bucket_create s bsender n =
     (let pid = next_addr s;
          d = \<lparr>p_refcount = 1, p_beam = True, p_bsender = Some (bid bsender), p_n = n\<rparr>
      in (s\<lparr>proxies := proxies s @ [pid],
             proxy_objs := (proxy_objs s)(pid \<mapsto> d),
             next_addr := next_addr s + 2\<rparr>,
          \<lparr>bid = pid + 1, btype = BEAM, blength = blength bsender, bstart = 0,
           frefcount = 0, bdata = pid\<rparr>))"

definition new_bucket :: "nat \<Rightarrow> btype \<Rightarrow> bucket" where
  "new_bucket a t =
     \<lparr>bid = a, btype = t, blength = 0, bstart = 0, frefcount = 0, bdata = 0\<rparr>"

fun count_beamed :: "bucket list \<Rightarrow> int \<Rightarrow> nat \<Rightarrow> int \<times> nat" where
  "count_beamed [] remain transferred = (remain, transferred)"
| "count_beamed (b # bs) remain transferred =
     count_beamed bs (off_sub remain (blength b)) (transferred + 1)"

text \<open>
  The second loop, over \<open>send_list\<close> (its argument \<open>sl\<close>). It returns the status
  (other than success only when \<open>apr_file_setaside\<close> fails and the function leaves),
  the beam, the brigade, \<open>remain\<close>, \<open>transferred\<close> and \<open>transferred_buckets\<close>.
\<close>

fun recv_from_send ::
  "recv_lib \<Rightarrow> bucket list \<Rightarrow> beam \<Rightarrow> bucket list \<Rightarrow> int \<Rightarrow> nat \<Rightarrow> nat
     \<Rightarrow> apr_status \<times> beam \<times> bucket list \<times> int \<times> nat \<times> nat" where
  "recv_from_send R [] s bb remain tr tb = (APR_SUCCESS, s\<lparr>send_list := []\<rparr>, bb, remain, tr, tb)"
| "recv_from_send R (bsender # sl) s bb remain tr tb =
     (if \<not> remain \<ge> 0 then (APR_SUCCESS, s\<lparr>send_list := bsender # sl\<rparr>, bb, remain, tr, tb)
      else if blength bsender > 0 \<and> remain \<le> 0
      then (APR_SUCCESS, s\<lparr>send_list := bsender # sl\<rparr>, bb, remain, tr, tb)
      else if \<not> APR_BUCKET_IS_METADATA bsender \<and> blength bsender = 0 then
        recv_from_send R sl (s\<lparr>hold_list := hold_list s @ [bsender]\<rparr>) bb remain tr tb
      else if \<not> APR_BUCKET_IS_METADATA bsender \<and> APR_BUCKET_IS_FILE bsender then
        (if file_setaside R bsender \<noteq> APR_SUCCESS
         then (file_setaside R bsender, s\<lparr>send_list := bsender # sl\<rparr>, bb, remain, tr, tb)
         else
           (let ng = \<lparr>bid = next_addr s, btype = FILE, blength = blength bsender,
                      bstart = bstart bsender, frefcount = 1, bdata = 0\<rparr>;
                s1 = s\<lparr>next_addr := next_addr s + 1,
                       hold_list := hold_list s @ [bsender],
                       received_bytes := to_off (received_bytes s + int (blength bsender))\<rparr>
            in recv_from_send R sl s1 (bb @ [ng]) (off_sub remain (blength bsender))
                 (tr + 1) (tb + 1)))
      else
        (case (if APR_BUCKET_IS_METADATA bsender then
                 (if btype bsender = EOS then
                    (s\<lparr>next_addr := next_addr s + 1, close_sent := True\<rparr>,
                     Some (new_bucket (next_addr s) EOS))
                  else if btype bsender = FLUSH then
                    (s\<lparr>next_addr := next_addr s + 1\<rparr>, Some (new_bucket (next_addr s) FLUSH))
                  else if btype bsender = ERROR then
                    (s\<lparr>next_addr := next_addr s + 1\<rparr>, Some (new_bucket (next_addr s) ERROR))
                  else (s, None))
               else
                 (case h2_beam_bucket_create s bsender (buckets_sent s) of
                    (s1, b) \<Rightarrow> (s1\<lparr>buckets_sent := buckets_sent s1 + 1\<rparr>, Some b))) of
           (s1, brecv) \<Rightarrow>
             let s2 = s1\<lparr>hold_list := hold_list s1 @ [bsender],
                         received_bytes := to_off (received_bytes s1 + int (blength bsender))\<rparr>
             in (case brecv of
                   Some b \<Rightarrow>
                     recv_from_send R sl s2 (bb @ [b]) (off_sub remain (blength b))
                       (tr + 1) (tb + 1)
                 | None \<Rightarrow>
                     (case count_beamed (beamers R bsender) remain tr of
                        (remain', tr') \<Rightarrow>
                          recv_from_send R sl s2 (bb @ beamers R bsender) remain'
                            tr' (tb + 1)))))"

text \<open>\<open>bucket_mem_used\<close>; the sender bucket a proxy points to waits in the hold.\<close>

definition h2_beam_bucket_mem_used :: "beam \<Rightarrow> bucket \<Rightarrow> int" where
  "h2_beam_bucket_mem_used s b =
     (case proxy_objs s (bdata b) of
        None \<Rightarrow> to_off (int (blength b))
      | Some d \<Rightarrow>
          (case p_bsender d of
             None \<Rightarrow> to_off (int (blength b))
           | Some sid \<Rightarrow>
               (case find (\<lambda>x. bid x = sid) (hold_list s) of
                  None \<Rightarrow> to_off (int (blength b))
                | Some sb \<Rightarrow>
                    if APR_BUCKET_IS_FILE sb \<or> APR_BUCKET_IS_MMAP sb then 0
                    else to_off (int (blength b)))))"

definition bucket_mem_used :: "beam \<Rightarrow> bucket \<Rightarrow> int" where
  "bucket_mem_used s b =
     (if APR_BUCKET_IS_FILE b \<or> APR_BUCKET_IS_MMAP b then 0
      else if H2_BUCKET_IS_BEAM b then h2_beam_bucket_mem_used s b
      else to_off (int (blength b)))"

text \<open>Splitting a receiver-side bucket; the halves of a proxy bucket share the proxy
  object, whose reference count grows. A failed split leaves the bucket as it is (the
  source does not look at the status).\<close>

definition recv_split :: "beam \<Rightarrow> bucket \<Rightarrow> nat \<Rightarrow> beam \<times> bucket \<times> bucket list" where
  "recv_split s b point =
     (case apr_bucket_split (next_addr s) b point of
        None \<Rightarrow> (s, b, [])
      | Some (h, t) \<Rightarrow>
          (let s1 = s\<lparr>next_addr := next_addr s + 1\<rparr> in
           if H2_BUCKET_IS_BEAM b then
             (case proxy_objs s1 (bdata b) of
                None \<Rightarrow> (s1, h, [t])
              | Some d \<Rightarrow>
                  (s1\<lparr>proxy_objs := (proxy_objs s1)(bdata b \<mapsto> d\<lparr>p_refcount := p_refcount d + 1\<rparr>)\<rparr>,
                   h, [t]))
           else (s1, h, [t])))"

text \<open>
  Destroying receiver-side buckets while \<open>beam->lock\<close> is held, as
  \<open>h2_beam_receive\<close> does when it cleans up \<open>recv_buffer\<close>: the lock is not
  recursive, so a proxy destructor that goes on to \<open>h2_beam_emitted\<close> locks it a
  second time and the thread blocks.
\<close>

definition beam_bucket_destroy_locked :: "beam \<Rightarrow> nat \<Rightarrow> error + beam" where
  "beam_bucket_destroy_locked s pid =
     (case proxy_objs s pid of
        None \<Rightarrow> Inl Dangling_proxy
      | Some d \<Rightarrow>
          let d' = d\<lparr>p_refcount := p_refcount d - 1\<rparr>;
              s1 = s\<lparr>proxy_objs := (proxy_objs s)(pid \<mapsto> d')\<rparr>
          in if p_refcount d' = 0 then
               (if p_beam d' then Inl Blocked
                else Inr (s1\<lparr>proxy_objs := (proxy_objs s1)(pid := None)\<rparr>))
             else Inr s1)"

definition apr_bucket_destroy_locked :: "beam \<Rightarrow> bucket \<Rightarrow> error + beam" where
  "apr_bucket_destroy_locked s b =
     (if H2_BUCKET_IS_BEAM b then beam_bucket_destroy_locked s (bdata b) else Inr s)"

fun apr_brigade_cleanup_locked :: "beam \<Rightarrow> bucket list \<Rightarrow> error + beam" where
  "apr_brigade_cleanup_locked s [] = Inr s"
| "apr_brigade_cleanup_locked s (b # bs) =
     (case apr_bucket_destroy_locked s b of
        Inl e \<Rightarrow> Inl e
      | Inr s' \<Rightarrow> apr_brigade_cleanup_locked s' bs)"

text \<open>\<open>apr_brigade_split_ex(bb, e, beam->recv_buffer)\<close> with \<open>tail\<close> the buckets from
  \<open>e\<close> on: a brigade that is not empty is cleaned up (its buckets destroyed) before it
  takes the tail.\<close>

definition apr_brigade_split_ex :: "beam \<Rightarrow> bucket list \<Rightarrow> error + beam" where
  "apr_brigade_split_ex s tail =
     (case recv_buffer s of
        None \<Rightarrow> Inr (s\<lparr>recv_buffer := Some tail\<rparr>)
      | Some a \<Rightarrow>
          (case apr_brigade_cleanup_locked s a of
             Inl e \<Rightarrow> Inl e
           | Inr s1 \<Rightarrow> Inr (s1\<lparr>recv_buffer := Some tail\<rparr>)))"

text \<open>The loop that puts back what is too much: \<open>pre\<close> are the buckets of the brigade
  already passed. It returns the beam, the brigade and \<open>remain\<close>.\<close>

fun put_back ::
  "beam \<Rightarrow> bucket list \<Rightarrow> bucket list \<Rightarrow> int \<Rightarrow> error + (beam \<times> bucket list \<times> int)" where
  "put_back s pre [] remain = Inr (s, pre, remain)"
| "put_back s pre (brecv # bs) remain =
     (let remain' = to_off (remain - (if tx_mem_limits s then bucket_mem_used s brecv
                                       else to_off (int (blength brecv))))
      in if remain' < 0 then
           (case recv_split s brecv (to_size (to_off (int (blength brecv)) + remain')) of
              (s1, h, t) \<Rightarrow>
                (case apr_brigade_split_ex s1 (t @ bs) of
                   Inl e \<Rightarrow> Inl e
                 | Inr s2 \<Rightarrow> Inr (s2, pre @ [h], remain')))
         else put_back s (pre @ [brecv]) bs remain')"

text \<open>
  \<open>h2_beam_receive\<close> from the label \<open>transfer\<close> on; each \<open>goto transfer\<close> is a
  recursive call and takes one unit of fuel. It returns the status, the beam, the
  brigade and the wake-ups not used (\<open>*pclosed\<close> is \<open>closed\<close> of the beam returned).
\<close>

fun receive_loop ::
  "nat \<Rightarrow> recv_lib \<Rightarrow> beam \<Rightarrow> bucket list \<Rightarrow> apr_read_type_e \<Rightarrow> int \<Rightarrow> int \<Rightarrow> nat \<Rightarrow> nat
     \<Rightarrow> wake list \<Rightarrow> error + (apr_status \<times> beam \<times> bucket list \<times> wake list)" where
  "receive_loop 0 R s bb block readbytes remain tr tb env = Inl Out_of_fuel"
| "receive_loop (Suc fuel) R s bb block readbytes remain tr tb env =
     (if aborted s then
        (case recv_buffer_cleanup s of
           Inl e \<Rightarrow> Inl e
         | Inr s1 \<Rightarrow> Inr (APR_ECONNABORTED, s1, bb, env))
      else
        (case (case recv_buffer s of
                 None \<Rightarrow> (s, bb, remain, tr)
               | Some rb \<Rightarrow>
                   (case recv_from_buffer rb bb remain tr of
                      (rb', bb', remain', tr') \<Rightarrow>
                        (s\<lparr>recv_buffer := Some rb'\<rparr>, bb', remain', tr'))) of
           (s1, bb1, remain1, tr1) \<Rightarrow>
             (case recv_from_send R (send_list s1) s1 bb1 remain1 tr1 tb of
                (st, s2, bb2, remain2, tr2, tb2) \<Rightarrow>
                  if st \<noteq> APR_SUCCESS then Inr (st, s2, bb2, env)
                  else
                    (case (if remain2 < 0 then put_back s2 [] bb2 readbytes
                           else Inr (s2, bb2, remain2)) of
                       Inl e \<Rightarrow> Inl e
                     | Inr (s3, bb3, remain3) \<Rightarrow>
                         (case (if closed s3 \<and> buffer_is_empty s3 \<and> \<not> close_sent s3
                                then (s3\<lparr>close_sent := True, next_addr := next_addr s3 + 1\<rparr>,
                                      bb3 @ [new_bucket (next_addr s3) EOS], tr2 + 1)
                                else (s3, bb3, tr2)) of
                            (s4, bb4, tr4) \<Rightarrow>
                              let s5 = (if cons_ev_cb s4 \<and> tb2 > 0
                                        then s4\<lparr>cb_log := cb_log s4 @ [Cons_ev]\<rparr> else s4)
                              in if tr4 \<noteq> 0 then Inr (APR_SUCCESS, s5, bb4, env)
                                 else if closed s5 then Inr (APR_EOF, s5, bb4, env)
                                 else
                                   (case wait_not_empty s5 block env of
                                      Inl e \<Rightarrow> Inl e
                                    | Inr (rv, s6, env') \<Rightarrow>
                                        if rv \<noteq> APR_SUCCESS then Inr (rv, s6, bb4, env')
                                        else receive_loop fuel R s6 bb4 block readbytes
                                               remain3 tr4 tb2 env'))))))"

definition h2_beam_receive ::
  "nat \<Rightarrow> recv_lib \<Rightarrow> beam \<Rightarrow> bucket list \<Rightarrow> apr_read_type_e \<Rightarrow> int \<Rightarrow> wake list
     \<Rightarrow> error + (apr_status \<times> beam \<times> bucket list \<times> wake list)" where
  "h2_beam_receive fuel R s bb block readbytes env =
     (let rb = (if readbytes \<le> 0 then to_off (int APR_SIZE_MAX) else readbytes)
      in receive_loop fuel R s bb block rb rb 0 0 env)"

subsection \<open>Creation and the states used in the examples\<close>

text \<open>\<open>h2_beam_create\<close>: the structure is zeroed, the lists are empty,
  \<open>tx_mem_limits\<close> is 1, buffer size and timeout are as given.\<close>

definition h2_beam_create :: "nat \<Rightarrow> int \<Rightarrow> beam" where
  "h2_beam_create max_buf tmo =
     \<lparr>send_list = [], hold_list = [], purge_list = [], proxies = [],
      proxy_objs = (\<lambda>a. None), recv_buffer = None,
      sent_bytes = 0, received_bytes = 0, cons_bytes_reported = 0, buckets_sent = 0,
      max_buf_size = max_buf, timeout = tmo, copy_files = False, tx_mem_limits = True,
      closed = False, aborted = False, close_sent = False,
      cons_ev_cb = False, cons_io_cb = False, was_empty_cb = False, send_block_cb = False,
      cb_log = [], next_addr = 100\<rparr>"

definition heap_bucket :: "nat \<Rightarrow> nat \<Rightarrow> bucket" where
  "heap_bucket a n =
     \<lparr>bid = a, btype = HEAP, blength = n, bstart = 0, frefcount = 0, bdata = 0\<rparr>"

definition file_bucket :: "nat \<Rightarrow> nat \<Rightarrow> int \<Rightarrow> bucket" where
  "file_bucket a n rc =
     \<lparr>bid = a, btype = FILE, blength = n, bstart = 0, frefcount = rc, bdata = 0\<rparr>"

definition hold_ids :: "beam \<Rightarrow> nat list" where
  "hold_ids s = map bid (hold_list s)"

definition purge_ids :: "beam \<Rightarrow> nat list" where
  "purge_ids s = map bid (purge_list s)"

text \<open>Heap bucket 1, a FLUSH bucket 2 and heap bucket 3 wait in the hold; the receiver
  has proxy 20 for bucket 1 and proxy 21 for bucket 3.\<close>

definition drop_scenario :: beam where
  "drop_scenario = (h2_beam_create 0 0)
     \<lparr>hold_list := [heap_bucket 1 10, new_bucket 2 FLUSH, heap_bucket 3 10],
      proxies := [20, 21],
      proxy_objs := [20 \<mapsto> \<lparr>p_refcount = 1, p_beam = True, p_bsender = Some 1, p_n = 0\<rparr>,
                     21 \<mapsto> \<lparr>p_refcount = 1, p_beam = True, p_bsender = Some 3, p_n = 1\<rparr>]\<rparr>"

definition proxy_bucket :: "nat \<Rightarrow> nat \<Rightarrow> nat \<Rightarrow> bucket" where
  "proxy_bucket a pid n =
     \<lparr>bid = a, btype = BEAM, blength = n, bstart = 0, frefcount = 0, bdata = pid\<rparr>"

subsection \<open>Well-formed proxy buckets\<close>

text \<open>
  What a brigade of receiver-side buckets needs for its destruction to go through:
  every proxy bucket points to a live proxy object that counts at least as many
  references as the brigade has buckets of it; the sender bucket of a proxy still
  attached to the beam is a data bucket in the hold; and two proxies do not shadow the
  same sender bucket.
\<close>

definition refs :: "nat \<Rightarrow> bucket list \<Rightarrow> nat" where
  "refs pid bb = length (filter (\<lambda>b. H2_BUCKET_IS_BEAM b \<and> bdata b = pid) bb)"

definition data_in_hold :: "nat \<Rightarrow> bucket list \<Rightarrow> bool" where
  "data_in_hold sid hold = list_ex (\<lambda>x. bid x = sid \<and> \<not> APR_BUCKET_IS_METADATA x) hold"

definition proxies_valid :: "beam \<Rightarrow> bucket list \<Rightarrow> bool" where
  "proxies_valid s bb =
     list_all (\<lambda>b. H2_BUCKET_IS_BEAM b \<longrightarrow>
       (case proxy_objs s (bdata b) of
          None \<Rightarrow> False
        | Some d \<Rightarrow>
            int (refs (bdata b) bb) \<le> p_refcount d \<and>
            (p_beam d \<longrightarrow>
               (case p_bsender d of
                  None \<Rightarrow> True
                | Some sid \<Rightarrow>
                    data_in_hold sid (hold_list s) \<and>
                    list_all (\<lambda>b'. H2_BUCKET_IS_BEAM b' \<and> bdata b' \<noteq> bdata b \<longrightarrow>
                      (case proxy_objs s (bdata b') of
                         None \<Rightarrow> True
                       | Some d' \<Rightarrow> p_bsender d' \<noteq> Some sid)) bb)))) bb"

text \<open>The beams \<open>s\<close> and \<open>s'\<close> differ at most in hold, purge list and proxies.\<close>

definition hold_changed_only :: "beam \<Rightarrow> beam \<Rightarrow> bool" where
  "hold_changed_only s s' =
     (send_list s' = send_list s \<and> recv_buffer s' = recv_buffer s
      \<and> sent_bytes s' = sent_bytes s \<and> received_bytes s' = received_bytes s
      \<and> cons_bytes_reported s' = cons_bytes_reported s \<and> buckets_sent s' = buckets_sent s
      \<and> max_buf_size s' = max_buf_size s \<and> timeout s' = timeout s
      \<and> copy_files s' = copy_files s \<and> tx_mem_limits s' = tx_mem_limits s
      \<and> closed s' = closed s \<and> aborted s' = aborted s \<and> close_sent s' = close_sent s
      \<and> cons_ev_cb s' = cons_ev_cb s \<and> cons_io_cb s' = cons_io_cb s
      \<and> was_empty_cb s' = was_empty_cb s \<and> send_block_cb s' = send_block_cb s
      \<and> cb_log s' = cb_log s \<and> next_addr s' = next_addr s)"

definition recv_buffer_valid :: "beam \<Rightarrow> bool" where
  "recv_buffer_valid s =
     (case recv_buffer s of None \<Rightarrow> True | Some bb \<Rightarrow> proxies_valid s bb)"

definition recv_buffer_empty :: "beam \<Rightarrow> bool" where
  "recv_buffer_empty s = (recv_buffer s = None \<or> recv_buffer s = Some [])"

text \<open>The out-of-order scenario with the proxy bucket of sender bucket 3 put back
  into \<open>recv_buffer\<close>.\<close>

definition buffered_scenario :: beam where
  "buffered_scenario = drop_scenario\<lparr>recv_buffer := Some [proxy_bucket 31 21 10]\<rparr>"

text \<open>A bucket library whose reads and setasides succeed and leave the bucket whole.\<close>

definition apr_ok :: apr_lib where
  "apr_ok = \<lparr>bucket_read = (\<lambda>b. (APR_SUCCESS, b, [])), bucket_setaside = (\<lambda>b. APR_SUCCESS)\<rparr>"

text \<open>The part of a bucket that \<open>append_bucket\<close> keeps when it enforces the bound: the
  bucket itself when it fits, else its first \<open>space_left\<close> bytes split off.\<close>

definition first_part :: "nat \<Rightarrow> bucket \<Rightarrow> bucket" where
  "first_part space_left b =
     (if blength b > space_left
      then b\<lparr>blength := space_left,
             frefcount := (if APR_BUCKET_IS_FILE b then frefcount b + 1 else frefcount b)\<rparr>
      else b)"

text \<open>No file setaside fails and no beamer function is registered.\<close>

definition recv_ok :: recv_lib where
  "recv_ok = \<lparr>file_setaside = (\<lambda>b. APR_SUCCESS), beamers = (\<lambda>b. [])\<rparr>"

text \<open>A destination brigade that already holds a bucket of unknown length (as a pipe
  bucket is) and a heap bucket of 10 bytes; and the beam as it is after
  \<open>h2_beam_receive\<close> has walked that brigade once.\<close>

definition unknown_bucket :: "nat \<Rightarrow> bucket" where
  "unknown_bucket a =
     \<lparr>bid = a, btype = DATA_OTHER, blength = APR_SIZE_MAX, bstart = 0, frefcount = 0, bdata = 0\<rparr>"

definition livelock_dest :: "bucket list" where
  "livelock_dest = [unknown_bucket 1, heap_bucket 2 10]"

definition livelock_beam :: beam where
  "livelock_beam = (h2_beam_create 0 0)\<lparr>recv_buffer := Some [heap_bucket 100 10], next_addr := 101\<rparr>"

definition livelock_dest' :: "bucket list" where
  "livelock_dest' = [unknown_bucket 1, heap_bucket 2 0]"

text \<open>The bytes of a bucket list that count against \<open>max_buf_size\<close>: the lengths of
  the buckets that are neither file nor mmap buckets.\<close>

definition nonfile_bytes :: "bucket list \<Rightarrow> nat" where
  "nonfile_bytes bs =
     sum_list (map blength
       (filter (\<lambda>b. \<not> APR_BUCKET_IS_FILE b \<and> \<not> APR_BUCKET_IS_MMAP b) bs))"

subsection \<open>Draining a closed beam\<close>

definition eos_count :: "bucket list \<Rightarrow> nat" where
  "eos_count bs = length (filter (\<lambda>b. btype b = EOS) bs)"

definition drained :: "beam \<Rightarrow> bool" where
  "drained s = (send_list s = [] \<and> recv_buffer_empty s)"

text \<open>What \<open>recv_buffer\<close> holds between two receive calls that start with an empty
  brigade: nothing, or the one piece of a data bucket that the last call put back.\<close>

definition one_piece :: "bucket list option \<Rightarrow> bool" where
  "one_piece rbo =
     (case rbo of
        None \<Rightarrow> True
      | Some rb \<Rightarrow> length rb \<le> 1 \<and> eos_count rb = 0
                    \<and> list_all (\<lambda>b. blength b < 2 ^ 63) rb)"

text \<open>
  A beam that the sender has closed and nobody has aborted, as the receiver finds it
  between its calls: \<open>send_list\<close> holds at most one EOS bucket, and none once
  \<open>close_sent\<close> is latched; \<open>recv_buffer\<close> holds at most the one piece of a data
  bucket that the last call put back; every length is below \<open>2^63\<close>; the file
  setaside succeeds for the buckets queued and no beamer function takes one.
\<close>

definition closed_beam_ok :: "recv_lib \<Rightarrow> beam \<Rightarrow> bool" where
  "closed_beam_ok R s =
     (closed s \<and> \<not> aborted s
      \<and> list_all (\<lambda>b. blength b < 2 ^ 63 \<and> file_setaside R b = APR_SUCCESS
                         \<and> beamers R b = []) (send_list s)
      \<and> one_piece (recv_buffer s)
      \<and> eos_count (send_list s) \<le> (if close_sent s then 0 else 1))"

text \<open>A series of receive calls, each with its blocking mode and byte limit, each into
  an empty brigade; the result is the beam after the last call and, for every call, the
  status and the brigade it filled. The byte limit is an \<open>apr_off_t\<close>.\<close>

fun receive_calls ::
  "nat \<Rightarrow> recv_lib \<Rightarrow> beam \<Rightarrow> (apr_read_type_e \<times> int) list
     \<Rightarrow> error + (beam \<times> (apr_status \<times> bucket list) list)" where
  "receive_calls fuel R s [] = Inr (s, [])"
| "receive_calls fuel R s ((block, readbytes) # cs) =
     (case h2_beam_receive (Suc fuel) R s [] block readbytes [] of
        Inl e \<Rightarrow> Inl e
      | Inr (rv, s', bb, env) \<Rightarrow>
          (case receive_calls fuel R s' cs of
             Inl e \<Rightarrow> Inl e
           | Inr (s'', rs) \<Rightarrow> Inr (s'', (rv, bb) # rs)))"

definition calls_ok :: "(apr_read_type_e \<times> int) list \<Rightarrow> bool" where
  "calls_ok cs = list_all (\<lambda>c. - (2 ^ 63) \<le> snd c \<and> snd c < 2 ^ 63) cs"

definition eos_received :: "(apr_status \<times> bucket list) list \<Rightarrow> nat" where
  "eos_received rs = sum_list (map (\<lambda>r. eos_count (snd r)) rs)"

text \<open>A closed beam with a heap bucket of 100 bytes and the sender's EOS bucket still
  queued; and one with two EOS buckets queued.\<close>

definition closed_with_eos :: beam where
  "closed_with_eos = (h2_beam_create 0 0)
     \<lparr>closed := True, send_list := [heap_bucket 1 100, new_bucket 2 EOS]\<rparr>"

definition closed_with_two_eos :: beam where
  "closed_with_two_eos = (h2_beam_create 0 0)
     \<lparr>closed := True, send_list := [new_bucket 1 EOS, new_bucket 2 EOS]\<rparr>"

text \<open>
  What a pass of the second loop of \<open>h2_beam_receive\<close> over the buckets \<open>sl\<close> has
  done when it ends with the result \<open>res\<close>: it has appended some buckets \<open>add\<close> to
  the brigade and left a rest of \<open>sl\<close> in \<open>send_list\<close>; \<open>remain\<close> has gone down by
  the lengths appended, and was not negative before the last of them; every EOS bucket
  taken from \<open>sl\<close> is an EOS bucket in \<open>add\<close>, and \<open>close_sent\<close> is latched if there
  is one.
\<close>

definition send_transfer ::
  "bucket list \<Rightarrow> beam \<Rightarrow> bucket list \<Rightarrow> int \<Rightarrow> nat
     \<Rightarrow> apr_status \<times> beam \<times> bucket list \<times> int \<times> nat \<times> nat \<Rightarrow> bool" where
  "send_transfer sl s bb remain tr res =
     (case res of
        (st, s', bb', remain', tr', tb') \<Rightarrow>
          st = APR_SUCCESS \<and> closed s' = closed s \<and> aborted s' = aborted s
          \<and> recv_buffer s' = recv_buffer s
          \<and> (\<exists>add pre.
                bb' = bb @ add \<and> sl = pre @ send_list s'
                \<and> remain' = remain - int (sum_list (map blength add))
                \<and> tr' = tr + length add
                \<and> (add \<noteq> [] \<longrightarrow> int (sum_list (map blength (butlast add))) \<le> remain)
                \<and> list_all (\<lambda>b. blength b < 2 ^ 63) add
                \<and> eos_count add + eos_count (send_list s') = eos_count sl
                \<and> close_sent s' = (close_sent s \<or> 0 < eos_count add)))"

section \<open>Properties\<close>

subsection \<open>The emitted protocol\<close>

lemma emit_walk_split:
  "\<forall>b\<in>set pre. bid b \<noteq> sid \<Longrightarrow> bid t = sid \<Longrightarrow>
   emit_walk sid (pre @ t # post) purge =
     (filter (\<lambda>b. \<not> APR_BUCKET_IS_METADATA b) pre @ post,
      purge @ filter APR_BUCKET_IS_METADATA pre @ [t])"
  by (induction pre arbitrary: purge) auto

lemma in_hold_decomp:
  assumes "in_hold sid xs"
  shows "xs = takeWhile (\<lambda>b. bid b \<noteq> sid) xs @ hd (dropWhile (\<lambda>b. bid b \<noteq> sid) xs)
             # tl (dropWhile (\<lambda>b. bid b \<noteq> sid) xs)
         \<and> bid (hd (dropWhile (\<lambda>b. bid b \<noteq> sid) xs)) = sid"
  using assms by (induction xs) (auto split: if_splits)

text \<open>
  Claim C2, as the code has it. When a proxy is destroyed whose sender bucket is in the
  hold, \<open>h2_beam_emitted\<close> returns; of the buckets in front of the referenced one the
  metadata buckets go to the purge list, in their order, followed by the referenced
  bucket itself, and the data buckets stay in the hold, in their order, followed by
  everything behind the referenced bucket. The send list is untouched and the proxy
  leaves the ring. So a metadata bucket between an earlier data bucket and the
  referenced one does not stay in the hold: it is purged with the referenced bucket.
\<close>

theorem emitted_moves_target_and_metadata:
  assumes "proxy_objs s pid = Some d" and "p_bsender d = Some sid"
    and "in_hold sid (hold_list s)"
  shows "\<exists>s'. h2_beam_emitted s pid = Inr s'
      \<and> hold_list s' =
          filter (\<lambda>b. \<not> APR_BUCKET_IS_METADATA b) (takeWhile (\<lambda>b. bid b \<noteq> sid) (hold_list s))
          @ tl (dropWhile (\<lambda>b. bid b \<noteq> sid) (hold_list s))
      \<and> purge_list s' =
          purge_list s @ filter APR_BUCKET_IS_METADATA (takeWhile (\<lambda>b. bid b \<noteq> sid) (hold_list s))
          @ [hd (dropWhile (\<lambda>b. bid b \<noteq> sid) (hold_list s))]
      \<and> bid (hd (dropWhile (\<lambda>b. bid b \<noteq> sid) (hold_list s))) = sid
      \<and> send_list s' = send_list s
      \<and> proxies s' = remove1 pid (proxies s)"
proof -
  let ?pre = "takeWhile (\<lambda>b. bid b \<noteq> sid) (hold_list s)"
  let ?t = "hd (dropWhile (\<lambda>b. bid b \<noteq> sid) (hold_list s))"
  let ?post = "tl (dropWhile (\<lambda>b. bid b \<noteq> sid) (hold_list s))"
  from in_hold_decomp [OF assms(3)]
  have dec: "hold_list s = ?pre @ ?t # ?post" and t: "bid ?t = sid" by simp_all
  have pre: "\<forall>b\<in>set ?pre. bid b \<noteq> sid"
    by (auto dest: set_takeWhileD)
  have "emit_walk sid (?pre @ ?t # ?post) (purge_list s) =
     (filter (\<lambda>b. \<not> APR_BUCKET_IS_METADATA b) ?pre @ ?post,
      purge_list s @ filter APR_BUCKET_IS_METADATA ?pre @ [?t])"
    by (rule emit_walk_split [OF pre t])
  with dec have w: "emit_walk sid (hold_list s) (purge_list s) =
     (filter (\<lambda>b. \<not> APR_BUCKET_IS_METADATA b) ?pre @ ?post,
      purge_list s @ filter APR_BUCKET_IS_METADATA ?pre @ [?t])" by simp
  show ?thesis
    using assms w t by (simp add: h2_beam_emitted_def)
qed

text \<open>The theorem at the out-of-order drop: with heap bucket 1, FLUSH bucket 2 and heap
  bucket 3 in the hold, destroying the proxy of bucket 3 leaves bucket 1 alone in the
  hold and purges buckets 2 and 3.\<close>

theorem emitted_moves_target_and_metadata_witness:
  "proxy_objs drop_scenario 21
     = Some \<lparr>p_refcount = 1, p_beam = True, p_bsender = Some 3, p_n = 1\<rparr>
   \<and> in_hold 3 (hold_list drop_scenario)
   \<and> (\<exists>s'. h2_beam_emitted drop_scenario 21 = Inr s'
         \<and> hold_list s' = [heap_bucket 1 10]
         \<and> purge_list s' = [new_bucket 2 FLUSH, heap_bucket 3 10])"
proof -
  have p: "proxy_objs drop_scenario 21
     = Some \<lparr>p_refcount = 1, p_beam = True, p_bsender = Some 3, p_n = 1\<rparr>"
    by (simp add: drop_scenario_def h2_beam_create_def)
  have h: "in_hold 3 (hold_list drop_scenario)"
    by (simp add: drop_scenario_def h2_beam_create_def heap_bucket_def new_bucket_def)
  from emitted_moves_target_and_metadata [OF p _ h]
  show ?thesis using p h
    by (auto simp: drop_scenario_def h2_beam_create_def heap_bucket_def new_bucket_def
        APR_BUCKET_IS_METADATA_def)
qed

text \<open>Against claim C2 as it is written: after the later data proxy (of bucket 3) is
  dropped first, the metadata bucket 2 is not in the hold any more, it is in the purge
  list with bucket 3; only the earlier data bucket 1 is left in the hold.\<close>

theorem later_proxy_drop_purges_metadata:
  "map_sum id hold_ids (h2_beam_emitted drop_scenario 21) = Inr [1]
   \<and> map_sum id purge_ids (h2_beam_emitted drop_scenario 21) = Inr [2, 3]"
  by (simp add: h2_beam_emitted_def drop_scenario_def h2_beam_create_def heap_bucket_def
      new_bucket_def hold_ids_def purge_ids_def APR_BUCKET_IS_METADATA_def)

subsection \<open>Proxies after the beam is torn down\<close>

lemma detach_proxies_at:
  "detach_proxies pids objs pid =
     (if pid \<in> set pids
      then map_option (\<lambda>d. d\<lparr>p_beam := False, p_bsender := None\<rparr>) (objs pid)
      else objs pid)"
  by (induction pids arbitrary: objs) (auto split: option.splits)

lemma report_consumption_proxies:
  "proxies (snd (report_consumption s)) = proxies s"
  "proxy_objs (snd (report_consumption s)) = proxy_objs s"
  by (simp_all add: report_consumption_def Let_def)

lemma cleanup_proxy_objs:
  "proxy_objs (beam_send_cleanup s) = detach_proxies (proxies s) (proxy_objs s)"
  by (simp add: beam_send_cleanup_def Let_def r_purge_sent_def report_consumption_proxies)

text \<open>
  Claim C10. Let a proxy be in the beam's ring when \<open>beam_send_cleanup\<close> tears the beam
  down. Reading a proxy bucket of it afterwards gives length 0 and
  \<open>APR_ECONNRESET\<close>, whatever reading the sender bucket would give; destroying the proxy
  afterwards returns and changes nothing of the beam but the proxy object itself.
\<close>

theorem detached_proxy_read_and_destroy:
  assumes "pid \<in> set (proxies s)" and "proxy_objs s pid = Some d" and "bdata b = pid"
  shows "beam_bucket_read rd (beam_send_cleanup s) b = Inr (APR_ECONNRESET, 0)
       \<and> (\<exists>objs. beam_bucket_destroy (beam_send_cleanup s) pid
                   = Inr ((beam_send_cleanup s)\<lparr>proxy_objs := objs\<rparr>))"
proof -
  have d: "proxy_objs (beam_send_cleanup s) pid = Some (d\<lparr>p_beam := False, p_bsender := None\<rparr>)"
    using assms by (simp add: cleanup_proxy_objs detach_proxies_at)
  have r: "beam_bucket_read rd (beam_send_cleanup s) b = Inr (APR_ECONNRESET, 0)"
    using d assms(3) by (simp add: beam_bucket_read_def)
  have "\<exists>objs. beam_bucket_destroy (beam_send_cleanup s) pid
                   = Inr ((beam_send_cleanup s)\<lparr>proxy_objs := objs\<rparr>)"
    using d by (auto simp: beam_bucket_destroy_def Let_def)
  with r show ?thesis by simp
qed

theorem detached_proxy_read_and_destroy_witness:
  "20 \<in> set (proxies drop_scenario)
   \<and> proxy_objs drop_scenario 20
       = Some \<lparr>p_refcount = 1, p_beam = True, p_bsender = Some 1, p_n = 0\<rparr>
   \<and> bdata (proxy_bucket 30 20 10) = 20
   \<and> beam_bucket_read (\<lambda>a. (APR_SUCCESS, 10)) (beam_send_cleanup drop_scenario)
        (proxy_bucket 30 20 10) = Inr (APR_ECONNRESET, 0)
   \<and> (\<exists>objs. beam_bucket_destroy (beam_send_cleanup drop_scenario) 20
                = Inr ((beam_send_cleanup drop_scenario)\<lparr>proxy_objs := objs\<rparr>))"
proof -
  have m: "20 \<in> set (proxies drop_scenario)"
    by (simp add: drop_scenario_def h2_beam_create_def)
  have p: "proxy_objs drop_scenario 20
       = Some \<lparr>p_refcount = 1, p_beam = True, p_bsender = Some 1, p_n = 0\<rparr>"
    by (simp add: drop_scenario_def h2_beam_create_def)
  have b: "bdata (proxy_bucket 30 20 10) = 20"
    by (simp add: proxy_bucket_def)
  from detached_proxy_read_and_destroy [OF m p b, of "\<lambda>a. (APR_SUCCESS, 10)"] m p b
  show ?thesis by simp
qed

subsection \<open>Sending on a beam that is aborted or closed\<close>

text \<open>
  Claim C1, evaluated on the code. On an aborted beam \<open>h2_beam_send\<close> returns
  \<open>APR_ECONNABORTED\<close>, on a closed one that is not aborted \<open>APR_SUCCESS\<close>; the
  caller's brigade is emptied and \<open>sent_bytes\<close> does not change. The buckets are
  appended to \<open>send_list\<close>, though, and \<open>hold_list\<close> is left as it was: the function
  named \<open>move_to_hold\<close> inserts into \<open>beam->send_list\<close>.
\<close>

theorem send_on_aborted_or_closed_beam:
  "(\<exists>s'. h2_beam_send fuel L (s\<lparr>aborted := True\<rparr>) True (Some bb) block env
            = Inr (APR_ECONNABORTED, s', Some [], env)
        \<and> send_list s' = send_list s @ bb \<and> hold_list s' = hold_list s
        \<and> sent_bytes s' = sent_bytes s)
   \<and> (\<exists>s'. h2_beam_send fuel L (s\<lparr>aborted := False, closed := True\<rparr>) True (Some bb) block env
            = Inr (APR_SUCCESS, s', Some [], env)
        \<and> send_list s' = send_list s @ bb \<and> hold_list s' = hold_list s
        \<and> sent_bytes s' = sent_bytes s)"
  by (simp add: h2_beam_send_def r_purge_sent_def move_to_hold_def report_consumption_def Let_def)

subsection \<open>Waiting for the beam to drain\<close>

lemma cond_wait_status: "fst (cond_wait w s) = APR_SUCCESS \<or> fst (cond_wait w s) = APR_TIMEUP"
  by (cases w) auto

lemma wait_empty_never_aborted:
  "wait_empty s block env = Inr (rv, s', env') \<Longrightarrow> rv \<noteq> APR_ECONNABORTED"
proof (induction env arbitrary: s)
  case Nil
  then show ?case by (auto split: if_splits)
next
  case (Cons w ws)
  show ?case
  proof (cases "cond_wait w s")
    case (Pair st s1)
    with cond_wait_status [of w s] have "st = APR_SUCCESS \<or> st = APR_TIMEUP" by simp
    with Cons Pair show ?thesis by (auto split: if_splits)
  qed
qed

lemma wait_empty_stuck:
  "wait_empty (s\<lparr>aborted := True, send_list := b # bs\<rparr>) APR_BLOCK_READ
      (replicate n (Wake (\<lambda>x. x))) = Inl Blocked"
  by (induction n) (simp_all add: buffer_is_empty_def)

text \<open>
  Claim C9, evaluated on the code. \<open>wait_empty\<close> does not look at the aborted flag
  (\<open>wait_not_empty\<close> and \<open>wait_not_full\<close> do). On an aborted beam with a bucket still
  in \<open>send_list\<close>, a blocking \<open>h2_beam_wait_empty\<close> that is woken any number of times
  (as by the broadcast of the abort) finds the buffer not empty and waits again: it does
  not return. And whatever the beam and the wake-ups, \<open>APR_ECONNABORTED\<close> is never its
  result.
\<close>

theorem wait_empty_ignores_abort:
  "h2_beam_wait_empty (s\<lparr>aborted := True, send_list := b # bs\<rparr>) APR_BLOCK_READ
      (replicate n (Wake (\<lambda>x. x))) = Inl Blocked
   \<and> h2_beam_wait_empty s0 block env \<noteq> Inr (APR_ECONNABORTED, s', env')"
  using wait_empty_never_aborted [of s0 block env APR_ECONNABORTED s' env']
  by (auto simp: h2_beam_wait_empty_def wait_empty_stuck)

subsection \<open>Destroying receiver-side buckets; close by the receiver\<close>

lemma hold_changed_only_refl: "hold_changed_only s s"
  by (simp add: hold_changed_only_def)

lemma hold_changed_only_trans:
  "hold_changed_only s s1 \<Longrightarrow> hold_changed_only s1 s2 \<Longrightarrow> hold_changed_only s s2"
  by (simp add: hold_changed_only_def)

lemma emitted_frame: "h2_beam_emitted s pid = Inr s' \<Longrightarrow> hold_changed_only s s'"
  by (auto simp: h2_beam_emitted_def hold_changed_only_def Let_def
      split: option.splits if_splits prod.splits)

lemma data_in_hold_in_hold: "data_in_hold sid hold \<Longrightarrow> in_hold sid hold"
  by (induction hold) (auto simp: data_in_hold_def)

lemma emit_walk_keeps_elem:
  "x \<in> set hold \<Longrightarrow> bid x \<noteq> sid \<Longrightarrow> \<not> APR_BUCKET_IS_METADATA x \<Longrightarrow>
   x \<in> set (fst (emit_walk sid hold purge))"
proof (induction hold arbitrary: purge)
  case Nil
  then show ?case by simp
next
  case (Cons a hold)
  show ?case
  proof (cases "x = a")
    case True
    with Cons.prems show ?thesis by (simp add: split_beta)
  next
    case False
    with Cons.prems have "x \<in> set hold" by simp
    from Cons.IH [OF this Cons.prems(2,3)] this show ?thesis
      by (simp add: split_beta)
  qed
qed

lemma emit_walk_keeps_data:
  "data_in_hold sid' hold \<Longrightarrow> sid' \<noteq> sid \<Longrightarrow>
   data_in_hold sid' (fst (emit_walk sid hold purge))"
  unfolding data_in_hold_def list_ex_iff
  using emit_walk_keeps_elem by blast

lemma case_option_all: "(case x of None \<Rightarrow> True | Some d \<Rightarrow> P d) = (\<forall>d. x = Some d \<longrightarrow> P d)"
  by (cases x) auto

lemma case_option_ex: "(case x of None \<Rightarrow> False | Some d \<Rightarrow> P d) = (\<exists>d. x = Some d \<and> P d)"
  by (cases x) auto

lemma proxies_valid_iff:
  "proxies_valid s bb \<longleftrightarrow>
     (\<forall>b\<in>set bb. H2_BUCKET_IS_BEAM b \<longrightarrow>
        (\<exists>d. proxy_objs s (bdata b) = Some d \<and> int (refs (bdata b) bb) \<le> p_refcount d \<and>
           (p_beam d \<longrightarrow> (\<forall>sid. p_bsender d = Some sid \<longrightarrow>
               data_in_hold sid (hold_list s) \<and>
               (\<forall>b'\<in>set bb. H2_BUCKET_IS_BEAM b' \<and> bdata b' \<noteq> bdata b \<longrightarrow>
                  (\<forall>d'. proxy_objs s (bdata b') = Some d' \<longrightarrow> p_bsender d' \<noteq> Some sid))))))"
  unfolding proxies_valid_def list_all_iff case_option_all case_option_ex
  by (rule refl)

lemma refs_Cons:
  "refs pid (b # bs) = (if H2_BUCKET_IS_BEAM b \<and> bdata b = pid then Suc (refs pid bs) else refs pid bs)"
  by (simp add: refs_def)

lemma refs_zero: "refs pid bs = 0 \<Longrightarrow> b' \<in> set bs \<Longrightarrow> H2_BUCKET_IS_BEAM b' \<Longrightarrow> bdata b' \<noteq> pid"
  by (auto simp: refs_def filter_empty_conv)

lemma destroy_step:
  assumes v: "proxies_valid s (b # bs)"
  shows "\<exists>s'. apr_bucket_destroy s b = Inr s' \<and> proxies_valid s' bs \<and> hold_changed_only s s'"
proof (cases "H2_BUCKET_IS_BEAM b")
  case False
  have "proxies_valid s bs"
    using v False unfolding proxies_valid_iff by (auto simp: refs_Cons)
  with False show ?thesis
    by (simp add: apr_bucket_destroy_def hold_changed_only_refl)
next
  case True
  let ?pid = "bdata b"
  from v have V: "\<forall>b'\<in>set (b # bs). H2_BUCKET_IS_BEAM b' \<longrightarrow>
        (\<exists>d. proxy_objs s (bdata b') = Some d \<and> int (refs (bdata b') (b # bs)) \<le> p_refcount d \<and>
           (p_beam d \<longrightarrow> (\<forall>sid. p_bsender d = Some sid \<longrightarrow>
               data_in_hold sid (hold_list s) \<and>
               (\<forall>b''\<in>set (b # bs). H2_BUCKET_IS_BEAM b'' \<and> bdata b'' \<noteq> bdata b' \<longrightarrow>
                  (\<forall>d'. proxy_objs s (bdata b'') = Some d' \<longrightarrow> p_bsender d' \<noteq> Some sid)))))"
    unfolding proxies_valid_iff .
  from V True obtain d where d: "proxy_objs s ?pid = Some d"
    and rc: "int (refs ?pid (b # bs)) \<le> p_refcount d"
    and att: "p_beam d \<longrightarrow> (\<forall>sid. p_bsender d = Some sid \<longrightarrow>
               data_in_hold sid (hold_list s) \<and>
               (\<forall>b'\<in>set (b # bs). H2_BUCKET_IS_BEAM b' \<and> bdata b' \<noteq> ?pid \<longrightarrow>
                  (\<forall>d'. proxy_objs s (bdata b') = Some d' \<longrightarrow> p_bsender d' \<noteq> Some sid)))"
    by auto
  let ?d' = "d\<lparr>p_refcount := p_refcount d - 1\<rparr>"
  let ?s1 = "s\<lparr>proxy_objs := (proxy_objs s)(?pid \<mapsto> ?d')\<rparr>"
  have rc': "int (refs ?pid bs) \<le> p_refcount d - 1"
    using rc True by (simp add: refs_Cons)
  have others: "\<And>b'. b' \<in> set bs \<Longrightarrow> H2_BUCKET_IS_BEAM b' \<Longrightarrow> bdata b' \<noteq> ?pid \<Longrightarrow>
     (\<exists>d1. proxy_objs s (bdata b') = Some d1 \<and> int (refs (bdata b') bs) \<le> p_refcount d1 \<and>
           (p_beam d1 \<longrightarrow> (\<forall>sid. p_bsender d1 = Some sid \<longrightarrow>
               data_in_hold sid (hold_list s) \<and> p_bsender d \<noteq> Some sid \<and>
               (\<forall>b''\<in>set bs. H2_BUCKET_IS_BEAM b'' \<and> bdata b'' \<noteq> bdata b' \<longrightarrow>
                  (\<forall>d'. proxy_objs s (bdata b'') = Some d' \<longrightarrow> p_bsender d' \<noteq> Some sid)))))"
  proof -
    fix b' assume b': "b' \<in> set bs" "H2_BUCKET_IS_BEAM b'" "bdata b' \<noteq> ?pid"
    have mem: "b' \<in> set (b # bs)" using b'(1) by simp
    from V [rule_format, OF mem b'(2)] obtain d1 where d1: "proxy_objs s (bdata b') = Some d1"
      and r1: "int (refs (bdata b') (b # bs)) \<le> p_refcount d1"
      and a1: "p_beam d1 \<longrightarrow> (\<forall>sid. p_bsender d1 = Some sid \<longrightarrow>
               data_in_hold sid (hold_list s) \<and>
               (\<forall>b''\<in>set (b # bs). H2_BUCKET_IS_BEAM b'' \<and> bdata b'' \<noteq> bdata b' \<longrightarrow>
                  (\<forall>d'. proxy_objs s (bdata b'') = Some d' \<longrightarrow> p_bsender d' \<noteq> Some sid)))"
      by blast
    have r2: "int (refs (bdata b') bs) \<le> p_refcount d1"
      using r1 b'(3) by (simp add: refs_Cons split: if_splits)
    have a2: "p_beam d1 \<longrightarrow> (\<forall>sid. p_bsender d1 = Some sid \<longrightarrow>
               data_in_hold sid (hold_list s) \<and> p_bsender d \<noteq> Some sid \<and>
               (\<forall>b''\<in>set bs. H2_BUCKET_IS_BEAM b'' \<and> bdata b'' \<noteq> bdata b' \<longrightarrow>
                  (\<forall>d'. proxy_objs s (bdata b'') = Some d' \<longrightarrow> p_bsender d' \<noteq> Some sid)))"
    proof (intro impI allI conjI)
      fix sid assume p: "p_beam d1" "p_bsender d1 = Some sid"
      from a1 p have h: "data_in_hold sid (hold_list s)"
        and u: "\<forall>b''\<in>set (b # bs). H2_BUCKET_IS_BEAM b'' \<and> bdata b'' \<noteq> bdata b' \<longrightarrow>
                  (\<forall>d'. proxy_objs s (bdata b'') = Some d' \<longrightarrow> p_bsender d' \<noteq> Some sid)"
        by blast+
      show "data_in_hold sid (hold_list s)" by (rule h)
      have "b \<in> set (b # bs)" by simp
      from u [rule_format, OF this _ d] True b'(3)
      show "p_bsender d \<noteq> Some sid" by simp
      show "\<forall>b''\<in>set bs. H2_BUCKET_IS_BEAM b'' \<and> bdata b'' \<noteq> bdata b' \<longrightarrow>
                  (\<forall>d'. proxy_objs s (bdata b'') = Some d' \<longrightarrow> p_bsender d' \<noteq> Some sid)"
        using u by simp
    qed
    from d1 r2 a2 show "\<exists>d1. proxy_objs s (bdata b') = Some d1 \<and> int (refs (bdata b') bs) \<le> p_refcount d1 \<and>
           (p_beam d1 \<longrightarrow> (\<forall>sid. p_bsender d1 = Some sid \<longrightarrow>
               data_in_hold sid (hold_list s) \<and> p_bsender d \<noteq> Some sid \<and>
               (\<forall>b''\<in>set bs. H2_BUCKET_IS_BEAM b'' \<and> bdata b'' \<noteq> bdata b' \<longrightarrow>
                  (\<forall>d'. proxy_objs s (bdata b'') = Some d' \<longrightarrow> p_bsender d' \<noteq> Some sid))))"
      by blast
  qed
  show ?thesis
  proof (cases "p_refcount d - 1 = 0")
    case False
    have res: "apr_bucket_destroy s b = Inr ?s1"
      using True d False by (simp add: apr_bucket_destroy_def beam_bucket_destroy_def Let_def)
    have "proxies_valid ?s1 bs"
      unfolding proxies_valid_iff
    proof (intro ballI impI)
      fix b' assume b': "b' \<in> set bs" "H2_BUCKET_IS_BEAM b'"
      show "\<exists>da. proxy_objs ?s1 (bdata b') = Some da \<and> int (refs (bdata b') bs) \<le> p_refcount da \<and>
           (p_beam da \<longrightarrow> (\<forall>sid. p_bsender da = Some sid \<longrightarrow>
               data_in_hold sid (hold_list ?s1) \<and>
               (\<forall>b''\<in>set bs. H2_BUCKET_IS_BEAM b'' \<and> bdata b'' \<noteq> bdata b' \<longrightarrow>
                  (\<forall>d'. proxy_objs ?s1 (bdata b'') = Some d' \<longrightarrow> p_bsender d' \<noteq> Some sid))))"
      proof (cases "bdata b' = ?pid")
        case True
        then show ?thesis using rc' att by auto
      next
        case False
        from others [OF b' False] show ?thesis using False by auto
      qed
    qed
    moreover have "hold_changed_only s ?s1" by (simp add: hold_changed_only_def)
    ultimately show ?thesis using res by (intro exI [of _ ?s1] conjI)
  next
    case zero: True
    then have norefs: "refs ?pid bs = 0" using rc' by simp
    have nopid: "\<And>b'. b' \<in> set bs \<Longrightarrow> H2_BUCKET_IS_BEAM b' \<Longrightarrow> bdata b' \<noteq> ?pid"
      using refs_zero [OF norefs] by blast
    have "\<exists>s2. (if p_beam ?d' then h2_beam_emitted ?s1 ?pid else Inr ?s1) = Inr s2
           \<and> hold_changed_only s s2
           \<and> (\<forall>q. q \<noteq> ?pid \<longrightarrow> proxy_objs s2 q = proxy_objs s q)
           \<and> (\<forall>sid'. data_in_hold sid' (hold_list s) \<and> p_bsender d \<noteq> Some sid'
                 \<longrightarrow> data_in_hold sid' (hold_list s2))"
    proof (cases "p_beam d")
      case False
      then show ?thesis by (auto simp: hold_changed_only_def)
    next
      case pb: True
      show ?thesis
      proof (cases "p_bsender d")
        case None
        then show ?thesis using pb
          by (auto simp: h2_beam_emitted_def hold_changed_only_def Let_def)
      next
        case (Some sid)
        with att pb have "data_in_hold sid (hold_list s)" by simp
        then have ih: "in_hold sid (hold_list s)" by (rule data_in_hold_in_hold)
        obtain h' p' where w: "emit_walk sid (hold_list s) (purge_list s) = (h', p')"
          by (cases "emit_walk sid (hold_list s) (purge_list s)")
        have keep: "\<And>sid'. data_in_hold sid' (hold_list s) \<Longrightarrow> sid' \<noteq> sid \<Longrightarrow> data_in_hold sid' h'"
          using emit_walk_keeps_data [of _ "hold_list s" sid "purge_list s"] w by simp
        show ?thesis using pb Some ih w keep
          by (auto simp: h2_beam_emitted_def hold_changed_only_def Let_def)
      qed
    qed
    then obtain s2 where s2: "(if p_beam ?d' then h2_beam_emitted ?s1 ?pid else Inr ?s1) = Inr s2"
      and fr: "hold_changed_only s s2"
      and same: "\<And>q. q \<noteq> ?pid \<Longrightarrow> proxy_objs s2 q = proxy_objs s q"
      and keep: "\<And>sid'. data_in_hold sid' (hold_list s) \<Longrightarrow> p_bsender d \<noteq> Some sid'
                 \<Longrightarrow> data_in_hold sid' (hold_list s2)"
      by blast
    let ?s3 = "s2\<lparr>proxy_objs := (proxy_objs s2)(?pid := None)\<rparr>"
    have p1: "p_refcount d = 1" using zero by simp
    have res: "apr_bucket_destroy s b = Inr ?s3"
      using True d s2 unfolding apr_bucket_destroy_def beam_bucket_destroy_def
      by (auto simp: Let_def p1 split: if_splits)
    have "proxies_valid ?s3 bs"
      unfolding proxies_valid_iff
    proof (intro ballI impI)
      fix b' assume b': "b' \<in> set bs" "H2_BUCKET_IS_BEAM b'"
      have ne: "bdata b' \<noteq> ?pid" using nopid b' by blast
      from others [OF b' ne] obtain d1 where d1: "proxy_objs s (bdata b') = Some d1"
        and r1: "int (refs (bdata b') bs) \<le> p_refcount d1"
        and a1: "p_beam d1 \<longrightarrow> (\<forall>sid. p_bsender d1 = Some sid \<longrightarrow>
               data_in_hold sid (hold_list s) \<and> p_bsender d \<noteq> Some sid \<and>
               (\<forall>b''\<in>set bs. H2_BUCKET_IS_BEAM b'' \<and> bdata b'' \<noteq> bdata b' \<longrightarrow>
                  (\<forall>d'. proxy_objs s (bdata b'') = Some d' \<longrightarrow> p_bsender d' \<noteq> Some sid)))"
        by blast
      have o3: "\<And>q. q \<noteq> ?pid \<Longrightarrow> proxy_objs ?s3 q = proxy_objs s q"
        using same by simp
      show "\<exists>da. proxy_objs ?s3 (bdata b') = Some da \<and> int (refs (bdata b') bs) \<le> p_refcount da \<and>
           (p_beam da \<longrightarrow> (\<forall>sid. p_bsender da = Some sid \<longrightarrow>
               data_in_hold sid (hold_list ?s3) \<and>
               (\<forall>b''\<in>set bs. H2_BUCKET_IS_BEAM b'' \<and> bdata b'' \<noteq> bdata b' \<longrightarrow>
                  (\<forall>d'. proxy_objs ?s3 (bdata b'') = Some d' \<longrightarrow> p_bsender d' \<noteq> Some sid))))"
      proof (intro exI conjI impI allI)
        show "proxy_objs ?s3 (bdata b') = Some d1" using o3 [OF ne] d1 by simp
        show "int (refs (bdata b') bs) \<le> p_refcount d1" by (rule r1)
      next
        fix sid assume "p_beam d1" "p_bsender d1 = Some sid"
        with a1 have h: "data_in_hold sid (hold_list s)" and n: "p_bsender d \<noteq> Some sid"
          and u: "\<forall>b''\<in>set bs. H2_BUCKET_IS_BEAM b'' \<and> bdata b'' \<noteq> bdata b' \<longrightarrow>
                  (\<forall>d'. proxy_objs s (bdata b'') = Some d' \<longrightarrow> p_bsender d' \<noteq> Some sid)"
          by auto
        show "data_in_hold sid (hold_list ?s3)" using keep [OF h n] by simp
        show "\<forall>b''\<in>set bs. H2_BUCKET_IS_BEAM b'' \<and> bdata b'' \<noteq> bdata b' \<longrightarrow>
                  (\<forall>d'. proxy_objs ?s3 (bdata b'') = Some d' \<longrightarrow> p_bsender d' \<noteq> Some sid)"
        proof (intro ballI impI allI)
          fix b'' d' assume b'': "b'' \<in> set bs" "H2_BUCKET_IS_BEAM b'' \<and> bdata b'' \<noteq> bdata b'"
            and "proxy_objs ?s3 (bdata b'') = Some d'"
          moreover have "bdata b'' \<noteq> ?pid" using nopid b'' by blast
          ultimately have "proxy_objs s (bdata b'') = Some d'" using o3 [of "bdata b''"] by simp
          with u b'' show "p_bsender d' \<noteq> Some sid" by blast
        qed
      qed
    qed
    moreover have "hold_changed_only s ?s3"
      using fr by (simp add: hold_changed_only_def)
    ultimately show ?thesis using res by (intro exI [of _ ?s3] conjI)
  qed
qed

lemma destroy_valid:
  "proxies_valid s bb \<Longrightarrow> \<exists>s'. apr_brigade_destroy s bb = Inr s' \<and> hold_changed_only s s'"
proof (induction bb arbitrary: s)
  case Nil
  then show ?case by (simp add: hold_changed_only_refl)
next
  case (Cons b bs)
  from destroy_step [OF Cons.prems] obtain s1 where
    s1: "apr_bucket_destroy s b = Inr s1" "proxies_valid s1 bs" "hold_changed_only s s1"
    by blast
  from Cons.IH [OF s1(2)] obtain s2 where
    s2: "apr_brigade_destroy s1 bs = Inr s2" "hold_changed_only s1 s2" by blast
  from s1 s2 show ?case
    by (auto intro: hold_changed_only_trans)
qed

lemma proxies_valid_cong:
  assumes a: "proxy_objs s' = proxy_objs s" and b: "hold_list s' = hold_list s"
  shows "proxies_valid s' bb = proxies_valid s bb"
  unfolding proxies_valid_def a b by (rule refl)

lemma bucket_destroy_frame: "apr_bucket_destroy s b = Inr s' \<Longrightarrow> hold_changed_only s s'"
proof -
  assume a: "apr_bucket_destroy s b = Inr s'"
  show ?thesis
  proof (cases "H2_BUCKET_IS_BEAM b")
    case False
    with a show ?thesis by (simp add: apr_bucket_destroy_def hold_changed_only_def)
  next
    case True
    with a have bd: "beam_bucket_destroy s (bdata b) = Inr s'"
      by (simp add: apr_bucket_destroy_def)
    then obtain d where d: "proxy_objs s (bdata b) = Some d"
      by (auto simp: beam_bucket_destroy_def split: option.splits)
    let ?s1 = "s\<lparr>proxy_objs := (proxy_objs s)(bdata b \<mapsto> d\<lparr>p_refcount := p_refcount d - 1\<rparr>)\<rparr>"
    have f1: "hold_changed_only s ?s1" by (simp add: hold_changed_only_def)
    show ?thesis
    proof (cases "p_refcount d - 1 = 0")
      case False
      with bd d have "s' = ?s1" by (simp add: beam_bucket_destroy_def Let_def)
      with f1 show ?thesis by simp
    next
      case z: True
      show ?thesis
      proof (cases "p_beam d")
        case False
        with bd d z have "s' = ?s1\<lparr>proxy_objs := (proxy_objs ?s1)(bdata b := None)\<rparr>"
          by (simp add: beam_bucket_destroy_def Let_def)
        then show ?thesis by (simp add: hold_changed_only_def)
      next
        case True
        with bd d z obtain s2 where e: "h2_beam_emitted ?s1 (bdata b) = Inr s2"
          and s': "s' = s2\<lparr>proxy_objs := (proxy_objs s2)(bdata b := None)\<rparr>"
          by (auto simp: beam_bucket_destroy_def Let_def split: sum.splits)
        from emitted_frame [OF e] have "hold_changed_only ?s1 s2" .
        with s' show ?thesis by (simp add: hold_changed_only_def)
      qed
    qed
  qed
qed

lemma brigade_destroy_frame:
  "apr_brigade_destroy s bb = Inr s' \<Longrightarrow> hold_changed_only s s'"
proof (induction bb arbitrary: s)
  case Nil
  then show ?case by (simp add: hold_changed_only_refl)
next
  case (Cons b bs)
  then obtain s1 where s1: "apr_bucket_destroy s b = Inr s1"
    and r: "apr_brigade_destroy s1 bs = Inr s'"
    by (auto split: sum.splits)
  from bucket_destroy_frame [OF s1] Cons.IH [OF r] show ?case
    by (rule hold_changed_only_trans)
qed

lemma recv_buffer_cleanup_result:
  assumes "recv_buffer_cleanup s = Inr s'"
  shows "recv_buffer_empty s' \<and> closed s' = closed s \<and> aborted s' = aborted s"
proof (cases "recv_buffer s")
  case None
  with assms show ?thesis by (simp add: recv_buffer_cleanup_def recv_buffer_empty_def)
next
  case (Some bb)
  show ?thesis
  proof (cases "bb = []")
    case True
    with Some assms show ?thesis by (simp add: recv_buffer_cleanup_def recv_buffer_empty_def)
  next
    case False
    let ?s1 = "s\<lparr>recv_buffer := None, received_bytes := to_off (received_bytes s + apr_brigade_length bb)\<rparr>"
    from assms Some False obtain s2 where d: "apr_brigade_destroy ?s1 bb = Inr s2"
      and s': "s' = (if cons_ev_cb s2 then s2\<lparr>cb_log := cb_log s2 @ [Cons_ev]\<rparr> else s2)"
      by (auto simp: recv_buffer_cleanup_def Let_def split: sum.splits)
    from brigade_destroy_frame [OF d] have "hold_changed_only ?s1 s2" .
    with s' show ?thesis by (simp add: hold_changed_only_def recv_buffer_empty_def)
  qed
qed

lemma recv_buffer_cleanup_returns:
  assumes "recv_buffer_valid s"
  shows "\<exists>s'. recv_buffer_cleanup s = Inr s'"
proof (cases "recv_buffer s")
  case None
  then show ?thesis by (simp add: recv_buffer_cleanup_def)
next
  case (Some bb)
  let ?s1 = "s\<lparr>recv_buffer := None, received_bytes := to_off (received_bytes s + apr_brigade_length bb)\<rparr>"
  from assms Some have "proxies_valid s bb" by (simp add: recv_buffer_valid_def)
  then have "proxies_valid ?s1 bb" using proxies_valid_cong [of ?s1 s bb] by simp
  from destroy_valid [OF this] obtain s2 where "apr_brigade_destroy ?s1 bb = Inr s2" by blast
  with Some show ?thesis by (simp add: recv_buffer_cleanup_def Let_def)
qed

text \<open>
  Claim C6. A close by the receiver (\<open>beam->from != c\<close>) returns whenever the proxy
  buckets in \<open>recv_buffer\<close> are well-formed, and then with \<open>APR_ECONNABORTED\<close>;
  and whenever it returns, the status is \<open>APR_ECONNABORTED\<close>, never success, the
  aborted flag (and the closed flag) is set and \<open>recv_buffer\<close> is null or empty.
\<close>

theorem receiver_close_aborts:
  "(recv_buffer_valid s \<longrightarrow> (\<exists>s'. h2_beam_close s False = Inr (APR_ECONNABORTED, s')))
   \<and> (\<forall>rv s'. h2_beam_close s False = Inr (rv, s') \<longrightarrow>
          rv = APR_ECONNABORTED \<and> aborted s' \<and> closed s' \<and> recv_buffer_empty s')"
proof -
  have returns: "\<exists>s'. h2_beam_close s False = Inr (APR_ECONNABORTED, s')"
    if v: "recv_buffer_valid s"
  proof -
    from v have "recv_buffer_valid (s\<lparr>closed := True\<rparr>)"
      using proxies_valid_cong [of "s\<lparr>closed := True\<rparr>" s]
      by (simp add: recv_buffer_valid_def split: option.splits)
    from recv_buffer_cleanup_returns [OF this]
    obtain s2 where "recv_buffer_cleanup (s\<lparr>closed := True\<rparr>) = Inr s2" by blast
    then show ?thesis by (simp add: h2_beam_close_def Let_def)
  qed
  have result: "rv = APR_ECONNABORTED \<and> aborted s' \<and> closed s' \<and> recv_buffer_empty s'"
    if c: "h2_beam_close s False = Inr (rv, s')" for rv s'
  proof -
    from c obtain s2 where r: "recv_buffer_cleanup (s\<lparr>closed := True\<rparr>) = Inr s2"
      and s': "s' = s2\<lparr>aborted := True\<rparr>" and rv: "rv = APR_ECONNABORTED"
      by (auto simp: h2_beam_close_def Let_def split: sum.splits)
    from recv_buffer_cleanup_result [OF r] s' rv
    show ?thesis by (simp add: recv_buffer_empty_def)
  qed
  from returns result show ?thesis by blast
qed

theorem receiver_close_aborts_witness:
  "recv_buffer_valid buffered_scenario
   \<and> (\<exists>s'. h2_beam_close buffered_scenario False = Inr (APR_ECONNABORTED, s')
          \<and> aborted s' \<and> closed s' \<and> recv_buffer_empty s')"
proof -
  have v: "recv_buffer_valid buffered_scenario"
    by (simp add: recv_buffer_valid_def proxies_valid_def buffered_scenario_def
        drop_scenario_def h2_beam_create_def proxy_bucket_def heap_bucket_def new_bucket_def
        H2_BUCKET_IS_BEAM_def refs_def data_in_hold_def APR_BUCKET_IS_METADATA_def)
  from receiver_close_aborts [of buffered_scenario] v show ?thesis by blast
qed

subsection \<open>File buckets in \<open>append_bucket\<close>\<close>

text \<open>
  Claim C7, as the code has it. Let \<open>append_bucket\<close> take a file bucket that is not
  empty, on a beam that is not aborted, with space left, and let the library calls it
  makes succeed. If \<open>copy_files\<close> is off and the file's reference count is 1, the
  bucket itself is set aside and appended to \<open>send_list\<close> as the file bucket it is,
  and no space is charged. In every other case the bucket, cut to the space left, is read
  and what is appended is a heap bucket of the bytes read; its length is charged.
\<close>

theorem file_bucket_beamed_or_copied:
  assumes "APR_BUCKET_IS_FILE b" and "\<not> aborted s" and "0 < blength b" and "0 < space_left"
    and "bucket_setaside L b = APR_SUCCESS"
    and "fst (bucket_read L (first_part space_left b)) = APR_SUCCESS"
  shows "\<exists>s' bb' sp. append_bucket L s b rest space_left = (APR_SUCCESS, s', bb', sp)
      \<and> (if \<not> copy_files s \<and> frefcount b = 1
         then send_list s' = send_list s @ [b] \<and> sp = space_left \<and> bb' = rest
         else send_list s' = send_list s
                @ [(fst (snd (bucket_read L (first_part space_left b))))\<lparr>btype := HEAP, bstart := 0\<rparr>]
              \<and> sp = space_left - blength (first_part space_left b))"
proof (cases "\<not> copy_files s \<and> frefcount b = 1")
  case True
  with assms show ?thesis
    by (simp add: append_bucket_def APR_BUCKET_IS_FILE_def APR_BUCKET_IS_METADATA_def
        APR_BUCKET_IS_HEAP_def APR_BUCKET_IS_MMAP_def enqueue_def Let_def)
next
  case False
  obtain st b3 ins3 where r: "bucket_read L (first_part space_left b) = (st, b3, ins3)"
    by (cases "bucket_read L (first_part space_left b)")
  with assms(6) have st: "st = APR_SUCCESS" by simp
  show ?thesis
  proof (cases "blength b > space_left")
    case True
    with False assms r st show ?thesis
      by (auto simp: append_bucket_def APR_BUCKET_IS_FILE_def APR_BUCKET_IS_METADATA_def
          APR_BUCKET_IS_HEAP_def APR_BUCKET_IS_MMAP_def enqueue_def Let_def
          apr_bucket_split_def first_part_def size_sub_def)
  next
    case le: False
    with False assms r st show ?thesis
      by (auto simp: append_bucket_def APR_BUCKET_IS_FILE_def APR_BUCKET_IS_METADATA_def
          APR_BUCKET_IS_HEAP_def APR_BUCKET_IS_MMAP_def enqueue_def Let_def
          apr_bucket_split_def first_part_def size_sub_def)
  qed
qed

text \<open>Against claim C7 as it is written: a file bucket of length 0 with reference count 1,
  \<open>copy_files\<close> off, is neither set aside nor copied: it is deleted, the call succeeds
  and nothing is appended to \<open>send_list\<close>.\<close>

theorem empty_file_bucket_dropped:
  "append_bucket apr_ok (h2_beam_create 0 0) (file_bucket 1 0 1) [] 100
     = (APR_SUCCESS, h2_beam_create 0 0, [], 100)"
  by (simp add: append_bucket_def apr_ok_def h2_beam_create_def file_bucket_def
      APR_BUCKET_IS_FILE_def APR_BUCKET_IS_METADATA_def APR_BUCKET_IS_HEAP_def
      APR_BUCKET_IS_MMAP_def Let_def)

theorem file_bucket_beamed_or_copied_witness:
  "APR_BUCKET_IS_FILE (file_bucket 1 10 1) \<and> \<not> aborted (h2_beam_create 0 0)
   \<and> 0 < blength (file_bucket 1 10 1) \<and> (0::nat) < 100
   \<and> bucket_setaside apr_ok (file_bucket 1 10 1) = APR_SUCCESS
   \<and> fst (bucket_read apr_ok (first_part 100 (file_bucket 1 10 1))) = APR_SUCCESS
   \<and> (\<exists>s' bb' sp.
         append_bucket apr_ok (h2_beam_create 0 0) (file_bucket 1 10 1) [] 100
           = (APR_SUCCESS, s', bb', sp)
         \<and> send_list s' = [file_bucket 1 10 1] \<and> sp = 100)
   \<and> (\<exists>s' bb' sp.
         append_bucket apr_ok ((h2_beam_create 0 0)\<lparr>copy_files := True\<rparr>) (file_bucket 1 10 1) [] 4
           = (APR_SUCCESS, s', bb', sp)
         \<and> map btype (send_list s') = [HEAP] \<and> map blength (send_list s') = [4] \<and> sp = 0)"
proof -
  have f: "APR_BUCKET_IS_FILE (file_bucket 1 10 1)"
    by (simp add: APR_BUCKET_IS_FILE_def file_bucket_def)
  have a: "\<not> aborted (h2_beam_create 0 0)" "\<not> aborted ((h2_beam_create 0 0)\<lparr>copy_files := True\<rparr>)"
    by (simp_all add: h2_beam_create_def)
  have l: "0 < blength (file_bucket 1 10 1)" by (simp add: file_bucket_def)
  have sa: "bucket_setaside apr_ok (file_bucket 1 10 1) = APR_SUCCESS" by (simp add: apr_ok_def)
  have rd: "fst (bucket_read apr_ok (first_part 100 (file_bucket 1 10 1))) = APR_SUCCESS"
    "fst (bucket_read apr_ok (first_part 4 (file_bucket 1 10 1))) = APR_SUCCESS"
    by (simp_all add: apr_ok_def)
  have one: "\<exists>s' bb' sp.
         append_bucket apr_ok (h2_beam_create 0 0) (file_bucket 1 10 1) [] 100
           = (APR_SUCCESS, s', bb', sp)
         \<and> send_list s' = [file_bucket 1 10 1] \<and> sp = 100"
    using file_bucket_beamed_or_copied [OF f a(1) l _ sa rd(1), of "[]"]
    by (auto simp: h2_beam_create_def file_bucket_def)
  have two: "\<exists>s' bb' sp.
         append_bucket apr_ok ((h2_beam_create 0 0)\<lparr>copy_files := True\<rparr>) (file_bucket 1 10 1) [] 4
           = (APR_SUCCESS, s', bb', sp)
         \<and> map btype (send_list s') = [HEAP] \<and> map blength (send_list s') = [4] \<and> sp = 0"
    using file_bucket_beamed_or_copied [OF f a(2) l _ sa rd(2), of "[]"]
    by (auto simp: h2_beam_create_def file_bucket_def first_part_def apr_ok_def
        APR_BUCKET_IS_FILE_def)
  from f a(1) l sa rd(1) one two show ?thesis by simp
qed

subsection \<open>Evaluating whole calls\<close>

lemmas evals = h2_beam_create_def heap_bucket_def new_bucket_def apr_ok_def recv_ok_def
  h2_beam_close_def h2_beam_send_def h2_beam_receive_def h2_beam_abort_def
  r_purge_sent_def report_consumption_def buffer_is_empty_def move_to_hold_def
  calc_space_left_def calc_buffered_def append_bucket_def enqueue_def
  APR_BUCKET_IS_METADATA_def APR_BUCKET_IS_FILE_def APR_BUCKET_IS_MMAP_def
  APR_BUCKET_IS_HEAP_def H2_BUCKET_IS_BEAM_def APR_SIZE_MAX_def
  h2_beam_bucket_create_def to_off_def off_sub_def to_size_def size_sub_def
  bucket_mem_used_def h2_beam_bucket_mem_used_def recv_split_def apr_bucket_split_def
  apr_brigade_split_ex_def recv_buffer_cleanup_def apr_brigade_length_def
  apr_bucket_destroy_def beam_bucket_destroy_def h2_beam_emitted_def
  apr_bucket_destroy_locked_def beam_bucket_destroy_locked_def Let_def

lemma nonfile_bytes_append:
  "nonfile_bytes (xs @ [b]) =
     nonfile_bytes xs + (if APR_BUCKET_IS_FILE b \<or> APR_BUCKET_IS_MMAP b then 0 else blength b)"
  by (simp add: nonfile_bytes_def)

text \<open>Where buckets do pass \<open>append_bucket\<close> the bound is kept: if the bytes counted
  in \<open>send_list\<close> and the space left together do not exceed \<open>N\<close> before the call,
  they do not after it, whatever the bucket; beamed file and mmap buckets are not
  counted. The bucket library is taken to read no more than a bucket of known length
  holds and never to turn a data bucket into metadata.\<close>

lemma append_bucket_keeps_bound:
  assumes inv: "nonfile_bytes (send_list s) + space_left \<le> N" and n: "N < APR_SIZE_MAX"
    and meta: "APR_BUCKET_IS_METADATA b \<longrightarrow> blength b = 0"
    and rd_len: "\<And>x. blength x \<noteq> APR_SIZE_MAX \<Longrightarrow> blength (fst (snd (bucket_read L x))) \<le> blength x"
    and rd_data: "\<And>x. \<not> APR_BUCKET_IS_METADATA (fst (snd (bucket_read L x)))"
  shows "nonfile_bytes (send_list (fst (snd (append_bucket L s b rest space_left))))
           + snd (snd (snd (append_bucket L s b rest space_left))) \<le> N"
proof (cases "aborted s")
  case True
  with inv show ?thesis by (simp add: append_bucket_def)
next
  case na: False
  show ?thesis
  proof (cases "APR_BUCKET_IS_METADATA b")
    case True
    with na inv meta show ?thesis
      by (simp add: append_bucket_def nonfile_bytes_append)
  next
    case nm: False
    define can_beam where "can_beam =
               (if APR_BUCKET_IS_FILE b then \<not> copy_files s \<and> frefcount b = 1
                else if APR_BUCKET_IS_MMAP b then \<not> copy_files s
                else False)"
    define check_len where "check_len =
               (if APR_BUCKET_IS_FILE b \<or> APR_BUCKET_IS_MMAP b then \<not> can_beam else True)"
    obtain st1 b1 ins1 where r1: "(if \<not> APR_BUCKET_IS_FILE b \<and> \<not> APR_BUCKET_IS_MMAP b
                  \<and> blength b = APR_SIZE_MAX
               then bucket_read L b else (APR_SUCCESS, b, [])) = (st1, b1, ins1)"
      by (metis prod_cases3)
    have b1_data: "\<not> APR_BUCKET_IS_METADATA b1"
      using r1 nm rd_data [of b] by (auto split: if_splits)
    have b1_type: "check_len \<or> APR_BUCKET_IS_FILE b1 \<or> APR_BUCKET_IS_MMAP b1"
      using r1 by (auto simp: check_len_def can_beam_def split: if_splits)
    have b1_beam: "\<not> check_len \<Longrightarrow> b1 = b"
      using r1 by (auto simp: check_len_def can_beam_def split: if_splits)
    show ?thesis
    proof (cases "st1 = APR_SUCCESS")
      case False
      with na nm r1 inv show ?thesis
        by (simp add: append_bucket_def Let_def can_beam_def [symmetric] check_len_def [symmetric])
    next
      case ok: True
      obtain b2 ins2 s2 where r2: "(if check_len \<and> blength b1 > space_left
                      then (case apr_bucket_split (next_addr s) b1 space_left of
                              None \<Rightarrow> (b1, [], s)
                            | Some (h, t) \<Rightarrow> (h, [t], s\<lparr>next_addr := next_addr s + 1\<rparr>))
                      else (b1, [], s)) = (b2, ins2, s2)"
        by (metis prod_cases3)
      have sl: "send_list s2 = send_list s"
        using r2 by (auto split: if_splits option.splits)
      have len2: "check_len \<Longrightarrow> blength b2 \<le> space_left"
        using r2 b1_data by (auto simp: apr_bucket_split_def Let_def split: if_splits)
      have ty2: "APR_BUCKET_IS_FILE b2 = APR_BUCKET_IS_FILE b1" "APR_BUCKET_IS_MMAP b2 = APR_BUCKET_IS_MMAP b1"
        using r2 b1_data
        by (auto simp: apr_bucket_split_def Let_def APR_BUCKET_IS_FILE_def APR_BUCKET_IS_MMAP_def
            split: if_splits)
      define space2 where "space2 = (if check_len then size_sub space_left (blength b2) else space_left)"
      have sp2: "check_len \<Longrightarrow> space2 + blength b2 = space_left"
        using len2 by (simp add: space2_def size_sub_def)
      have sp2': "\<not> check_len \<Longrightarrow> space2 = space_left" by (simp add: space2_def)
      have known: "check_len \<Longrightarrow> blength b2 \<noteq> APR_SIZE_MAX"
        using len2 inv n by auto
      obtain st3 b3 ins3 where r3: "bucket_read L b2 = (st3, b3, ins3)" by (metis prod_cases3)
      have len3: "check_len \<Longrightarrow> blength b3 \<le> blength b2"
        using rd_len [OF known] r3 by simp
      have unfold: "append_bucket L s b rest space_left =
          (let behind = ins2 @ ins1 @ rest in
           if blength b2 = 0 then (APR_SUCCESS, s2, behind, space2)
           else if APR_BUCKET_IS_HEAP b2 then
             (let st = bucket_setaside L b2 in
              if st \<noteq> APR_SUCCESS then (st, s2, b2 # behind, space2)
              else (APR_SUCCESS, enqueue s2 b2, behind, space2))
           else if can_beam \<and> (APR_BUCKET_IS_FILE b2 \<or> APR_BUCKET_IS_MMAP b2) then
             (let st = bucket_setaside L b2 in
              if st \<noteq> APR_SUCCESS then (st, s2, b2 # behind, space2)
              else (APR_SUCCESS, enqueue s2 b2, behind, space2))
           else
             (if st3 \<noteq> APR_SUCCESS then (st3, s2, b3 # ins3 @ behind, space2)
              else (APR_SUCCESS, enqueue s2 (b3\<lparr>btype := HEAP, bstart := 0\<rparr>),
                    ins3 @ behind, space2)))"
        using na nm r1 ok r2 r3
        by (auto simp: append_bucket_def Let_def can_beam_def [symmetric] check_len_def [symmetric]
            space2_def)
      have base: "nonfile_bytes (send_list s2) + space2 \<le> N"
        using inv sl sp2 sp2' by (cases check_len) auto
      have cb: "can_beam \<Longrightarrow> \<not> check_len"
        by (auto simp: check_len_def can_beam_def split: if_splits)
      have enq2: "nonfile_bytes (send_list (enqueue s2 b2)) + space2 \<le> N"
      proof (cases check_len)
        case True
        with sp2 inv sl show ?thesis
          by (auto simp: enqueue_def nonfile_bytes_append)
      next
        case False
        with b1_type ty2 have "APR_BUCKET_IS_FILE b2 \<or> APR_BUCKET_IS_MMAP b2" by simp
        with False sp2' inv sl show ?thesis
          by (auto simp: enqueue_def nonfile_bytes_append)
      qed
      have enq3: "\<not> can_beam \<or> \<not> (APR_BUCKET_IS_FILE b2 \<or> APR_BUCKET_IS_MMAP b2) \<Longrightarrow>
            nonfile_bytes (send_list (enqueue s2 (b3\<lparr>btype := HEAP, bstart := 0\<rparr>))) + space2 \<le> N"
      proof -
        assume a: "\<not> can_beam \<or> \<not> (APR_BUCKET_IS_FILE b2 \<or> APR_BUCKET_IS_MMAP b2)"
        have "check_len"
          using a b1_type ty2 by (auto simp: check_len_def)
        with sp2 len3 inv sl show ?thesis
          by (auto simp: enqueue_def nonfile_bytes_append)
      qed
      show ?thesis
        unfolding unfold Let_def using base enq2 enq3 by auto
    qed
  qed
qed

text \<open>
  Claim C5, evaluated on the code. On a closed beam with \<open>max_buf_size = 10\<close> a send
  of one heap bucket of 100 bytes succeeds and leaves 100 heap bytes in \<open>send_list\<close>:
  ten times the bound. The buckets come in through \<open>move_to_hold\<close>, which appends
  to \<open>send_list\<close> without looking at the space left.
\<close>

theorem closed_beam_send_exceeds_bound:
  "\<exists>s'. h2_beam_send fuel L ((h2_beam_create 10 0)\<lparr>closed := True\<rparr>) True
             (Some [heap_bucket 1 100]) block env = Inr (APR_SUCCESS, s', Some [], env)
        \<and> max_buf_size s' = 10 \<and> calc_buffered s' = 100
        \<and> map btype (send_list s') = [HEAP]"
  by (simp add: evals)

text \<open>
  Claim C4, evaluated on the code, on two runs that end with \<open>received_bytes\<close> above
  \<open>sent_bytes\<close>. First run, without any abort: the sender closes an empty beam and
  then sends a heap bucket of 10 bytes, which \<open>move_to_hold\<close> puts into
  \<open>send_list\<close> without counting it; the receiver receives it: 0 bytes sent, 10
  received. Second run: the sender sends 100 bytes, the receiver receives with a limit of
  10, so that all 100 bytes are counted as received and 90 of them are put back into
  \<open>recv_buffer\<close>; then the receiver aborts, and \<open>recv_buffer_cleanup\<close> counts
  the 90 bytes a second time: 100 bytes sent, 190 received.
\<close>

theorem received_bytes_overtake_sent_bytes:
  "(\<exists>s1 s2 s3 bb.
      h2_beam_close (h2_beam_create 0 0) True = Inr (APR_SUCCESS, s1)
    \<and> h2_beam_send 1 apr_ok s1 True (Some [heap_bucket 1 10]) APR_BLOCK_READ []
        = Inr (APR_SUCCESS, s2, Some [], [])
    \<and> h2_beam_receive 1 recv_ok s2 [] APR_NONBLOCK_READ 100 [] = Inr (APR_SUCCESS, s3, bb, [])
    \<and> sent_bytes s3 = 0 \<and> received_bytes s3 = 10)
   \<and> (\<exists>s1 s2 s3 bb.
      h2_beam_send 1 apr_ok (h2_beam_create 0 0) True (Some [heap_bucket 1 100]) APR_BLOCK_READ []
        = Inr (APR_SUCCESS, s1, Some [], [])
    \<and> h2_beam_receive 1 recv_ok s1 [] APR_NONBLOCK_READ 10 [] = Inr (APR_SUCCESS, s2, bb, [])
    \<and> sent_bytes s2 = 100 \<and> received_bytes s2 = 100
    \<and> map blength bb = [10] \<and> map_option (map blength) (recv_buffer s2) = Some [90]
    \<and> h2_beam_abort s2 False = Inr s3
    \<and> sent_bytes s3 = 100 \<and> received_bytes s3 = 190)"
  by (simp add: evals)

subsection \<open>Receiving from an empty beam\<close>

lemma livelock_spin: "receive_loop fuel recv_ok livelock_beam livelock_dest' APR_NONBLOCK_READ (- 1) 0 0 0 env
   = Inl Out_of_fuel"
proof (induction fuel)
  case 0
  show ?case by simp
next
  case (Suc n)
  have "receive_loop (Suc n) recv_ok livelock_beam livelock_dest' APR_NONBLOCK_READ (- 1) 0 0 0 env
      = receive_loop n recv_ok livelock_beam livelock_dest' APR_NONBLOCK_READ (- 1) 0 0 0 env"
    by (cases env) (simp_all add: evals livelock_beam_def livelock_dest'_def unknown_bucket_def)
  with Suc show ?case by simp
qed

lemma livelock_second: "receive_loop (Suc n) recv_ok livelock_beam livelock_dest' APR_NONBLOCK_READ (- 1) (- 10) 0 0 env
   = receive_loop n recv_ok livelock_beam livelock_dest' APR_NONBLOCK_READ (- 1) 0 0 0 env"
  by (cases env) (simp_all add: evals livelock_beam_def livelock_dest'_def unknown_bucket_def)

lemma livelock_first: "h2_beam_receive (Suc n) recv_ok (h2_beam_create 0 0) livelock_dest APR_NONBLOCK_READ 0 env
   = receive_loop n recv_ok livelock_beam livelock_dest' APR_NONBLOCK_READ (- 1) (- 10) 0 0 env"
  by (cases env) (simp_all add: evals livelock_beam_def livelock_dest'_def livelock_dest_def unknown_bucket_def)

text \<open>
  Claim C8, evaluated on the code. A call with \<open>readbytes \<le> 0\<close> starts with
  \<open>remain = (apr_off_t)APR_SIZE_MAX\<close>, which is \<open>-1\<close>, and so walks the
  caller's brigade as if too much had been transferred. With a bucket of unknown length
  and a heap bucket of 10 bytes already in the brigade, the non-blocking call on a new,
  empty beam moves the 10 bytes into \<open>recv_buffer\<close> and then goes round
  \<open>transfer\<close> for ever, \<open>wait_not_empty\<close> finding the buffer not empty and
  nothing being transferred: whatever the fuel, the call has not returned.
\<close>

theorem nonblocking_receive_livelock:
  "h2_beam_receive fuel recv_ok (h2_beam_create 0 0) livelock_dest APR_NONBLOCK_READ 0 env
     = Inl Out_of_fuel"
proof (cases fuel)
  case 0
  then show ?thesis by (simp add: h2_beam_receive_def)
next
  case (Suc n)
  show ?thesis
  proof (cases n)
    case 0
    with Suc show ?thesis by (simp only: livelock_first receive_loop.simps)
  next
    case (Suc m)
    with \<open>fuel = Suc n\<close> show ?thesis by (simp only: livelock_first livelock_second livelock_spin)
  qed
qed

lemma unbounded_readbytes: "to_off (int APR_SIZE_MAX) = - 1"
  by (simp add: to_off_def APR_SIZE_MAX_def)


lemma send_list_same: "send_list s = sl \<Longrightarrow> s\<lparr>send_list := sl\<rparr> = s"
  by (cases s) auto

lemma recv_buffer_same: "recv_buffer s = rb \<Longrightarrow> s\<lparr>recv_buffer := rb\<rparr> = s"
  by (cases s) auto

lemma wait_not_empty_nonblock:
  "buffer_is_empty s \<Longrightarrow> \<not> aborted s \<Longrightarrow> \<not> closed s \<Longrightarrow>
   wait_not_empty s APR_NONBLOCK_READ env = Inr (APR_EAGAIN, s, env)"
  by (cases env) simp_all

lemma receive_loop_empty:
  assumes e: "send_list s = []" "recv_buffer_empty s" and na: "\<not> aborted s"
    and r: "(0 \<le> remain \<and> 0 \<le> readbytes) \<or> bb = []"
  shows "receive_loop (Suc fuel) R s bb block readbytes remain 0 0 env =
     (if closed s \<and> \<not> close_sent s
      then Inr (APR_SUCCESS, s\<lparr>close_sent := True, next_addr := next_addr s + 1\<rparr>,
                bb @ [new_bucket (next_addr s) EOS], env)
      else if closed s then Inr (APR_EOF, s, bb, env)
      else (case wait_not_empty s block env of
              Inl e \<Rightarrow> Inl e
            | Inr (rv, s6, env') \<Rightarrow>
                if rv \<noteq> APR_SUCCESS then Inr (rv, s6, bb, env')
                else receive_loop fuel R s6 bb block readbytes
                       (if remain < 0 then readbytes else remain) 0 0 env'))"
proof -
  have be: "buffer_is_empty s" using e by (simp add: buffer_is_empty_def recv_buffer_empty_def)
  show ?thesis
  proof (cases "recv_buffer s")
    case None
    with e na r be show ?thesis
      by (auto simp: send_list_same)
  next
    case (Some rb)
    with e have rb: "rb = []" by (simp add: recv_buffer_empty_def)
    with Some e na r be show ?thesis
      by (auto simp: send_list_same recv_buffer_same)
  qed
qed

text \<open>The regular case: with a positive byte limit, or an empty brigade, a
  non-blocking receive on an open, empty beam returns \<open>APR_EAGAIN\<close> and changes
  neither the brigade nor the beam.\<close>

lemma receive_open_empty_nonblock:
  assumes "\<not> closed s" and "\<not> aborted s" and "send_list s = []" and "recv_buffer_empty s"
    and "0 < readbytes \<or> bb = []"
  shows "h2_beam_receive (Suc fuel) R s bb APR_NONBLOCK_READ readbytes env
      = Inr (APR_EAGAIN, s, bb, env)"
proof -
  have be: "buffer_is_empty s" using assms by (simp add: buffer_is_empty_def recv_buffer_empty_def)
  show ?thesis
    using assms unfolding h2_beam_receive_def Let_def
    by (subst receive_loop_empty)
       (auto simp: unbounded_readbytes wait_not_empty_nonblock [OF be])
qed

subsection \<open>Draining a closed beam\<close>

text \<open>Where no \<open>apr_off_t\<close> wraps: a byte limit that is not negative and bucket lengths
  below \<open>2^63\<close>.\<close>

lemma to_off_id: "- (2 ^ 63) \<le> x \<Longrightarrow> x < 2 ^ 63 \<Longrightarrow> to_off x = x"
  by (simp add: to_off_def)

lemma off_sub_exact:
  "0 \<le> r \<Longrightarrow> r < 2 ^ 63 \<Longrightarrow> n < 2 ^ 63 \<Longrightarrow> off_sub r n = r - int n"
proof -
  assume a: "0 \<le> r" "r < 2 ^ 63" "n < 2 ^ 63"
  then have "int n < 2 ^ 63" by simp
  with a have "- (2 ^ 63) \<le> r - int n" "r - int n < 2 ^ 63" by simp_all
  then show ?thesis unfolding off_sub_def by (rule to_off_id)
qed

lemma bucket_mem_used_bounds:
  assumes "blength b < 2 ^ 63"
  shows "0 \<le> bucket_mem_used s b \<and> bucket_mem_used s b \<le> int (blength b)"
proof -
  from assms have "int (blength b) < 2 ^ 63" by simp
  then have t: "to_off (int (blength b)) = int (blength b)" by (simp add: to_off_id)
  show ?thesis
    by (simp add: bucket_mem_used_def h2_beam_bucket_mem_used_def t split: option.splits)
qed

lemma eos_count_append: "eos_count (xs @ ys) = eos_count xs + eos_count ys"
  by (simp add: eos_count_def)

lemma eos_count_Cons: "eos_count (x # xs) = (if btype x = EOS then 1 else 0) + eos_count xs"
  by (simp add: eos_count_def)

lemma eos_count_Nil: "eos_count [] = 0"
  by (simp add: eos_count_def)

text \<open>The second loop of \<open>h2_beam_receive\<close>, bucket by bucket: it stops, it moves a
  bucket to the hold without a bucket for the receiver, or it appends one.\<close>

lemma send_transferI:
  assumes "st = APR_SUCCESS" "closed s' = closed s" "aborted s' = aborted s"
    "recv_buffer s' = recv_buffer s"
    "bb' = bb @ add" "sl = pre @ send_list s'"
    "remain' = remain - int (sum_list (map blength add))"
    "tr' = tr + length add"
    "add \<noteq> [] \<longrightarrow> int (sum_list (map blength (butlast add))) \<le> remain"
    "list_all (\<lambda>b. blength b < 2 ^ 63) add"
    "eos_count add + eos_count (send_list s') = eos_count sl"
    "close_sent s' = (close_sent s \<or> 0 < eos_count add)"
  shows "send_transfer sl s bb remain tr (st, s', bb', remain', tr', tb')"
  unfolding send_transfer_def prod.case
  by (intro conjI exI [of _ add] exI [of _ pre]) (rule assms)+

lemma send_transferE:
  assumes "send_transfer sl s bb remain tr (st, s', bb', remain', tr', tb')"
  obtains add pre where
    "st = APR_SUCCESS" "closed s' = closed s" "aborted s' = aborted s"
    "recv_buffer s' = recv_buffer s"
    "bb' = bb @ add" "sl = pre @ send_list s'"
    "remain' = remain - int (sum_list (map blength add))"
    "tr' = tr + length add"
    "add \<noteq> [] \<longrightarrow> int (sum_list (map blength (butlast add))) \<le> remain"
    "list_all (\<lambda>b. blength b < 2 ^ 63) add"
    "eos_count add + eos_count (send_list s') = eos_count sl"
    "close_sent s' = (close_sent s \<or> 0 < eos_count add)"
  using assms unfolding send_transfer_def prod.case
  by (elim conjE exE) (rule that, assumption+)

lemma send_transfer_stop:
  assumes "closed s' = closed s" "aborted s' = aborted s" "recv_buffer s' = recv_buffer s"
    "close_sent s' = close_sent s" "send_list s' = sl"
  shows "send_transfer sl s bb remain tr (APR_SUCCESS, s', bb, remain, tr, tb)"
  by (rule send_transferI [where add = "[]" and pre = "[]"])
     (use assms in \<open>simp_all add: eos_count_Nil\<close>)

lemma send_transfer_skip:
  assumes t: "send_transfer sl s1 bb remain tr res"
    and f: "closed s1 = closed s" "aborted s1 = aborted s" "recv_buffer s1 = recv_buffer s"
      "close_sent s1 = close_sent s"
    and b: "btype b \<noteq> EOS"
  shows "send_transfer (b # sl) s bb remain tr res"
proof -
  obtain st s' bb' remain' tr' tb' where res: "res = (st, s', bb', remain', tr', tb')"
    by (metis prod_cases6)
  from t [unfolded res] show ?thesis unfolding res
  proof (rule send_transferE)
    fix add pre
    assume a: "st = APR_SUCCESS" "closed s' = closed s1" "aborted s' = aborted s1"
       "recv_buffer s' = recv_buffer s1"
       "bb' = bb @ add" "sl = pre @ send_list s'"
       "remain' = remain - int (sum_list (map blength add))"
       "tr' = tr + length add"
       "add \<noteq> [] \<longrightarrow> int (sum_list (map blength (butlast add))) \<le> remain"
       "list_all (\<lambda>b. blength b < 2 ^ 63) add"
       "eos_count add + eos_count (send_list s') = eos_count sl"
       "close_sent s' = (close_sent s1 \<or> 0 < eos_count add)"
    show "send_transfer (b # sl) s bb remain tr (st, s', bb', remain', tr', tb')"
    proof (rule send_transferI [where add = add and pre = "b # pre"])
      show "eos_count add + eos_count (send_list s') = eos_count (b # sl)"
        using a(11) b by (simp add: eos_count_Cons)
    qed (use a f in simp_all)
  qed
qed

lemma send_transfer_app:
  assumes t: "send_transfer sl s1 (bb @ [y]) (remain - int (blength y)) (tr + 1) res"
    and f: "closed s1 = closed s" "aborted s1 = aborted s" "recv_buffer s1 = recv_buffer s"
      "close_sent s1 = (close_sent s \<or> btype y = EOS)"
    and b: "(btype b = EOS) = (btype y = EOS)"
    and r: "0 \<le> remain" and y: "blength y < 2 ^ 63"
  shows "send_transfer (b # sl) s bb remain tr res"
proof -
  obtain st s' bb' remain' tr' tb' where res: "res = (st, s', bb', remain', tr', tb')"
    by (metis prod_cases6)
  from t [unfolded res] show ?thesis unfolding res
  proof (rule send_transferE)
    fix add pre
    assume a: "st = APR_SUCCESS" "closed s' = closed s1" "aborted s' = aborted s1"
       "recv_buffer s' = recv_buffer s1"
       "bb' = (bb @ [y]) @ add" "sl = pre @ send_list s'"
       "remain' = remain - int (blength y) - int (sum_list (map blength add))"
       "tr' = tr + 1 + length add"
       "add \<noteq> [] \<longrightarrow> int (sum_list (map blength (butlast add))) \<le> remain - int (blength y)"
       "list_all (\<lambda>b. blength b < 2 ^ 63) add"
       "eos_count add + eos_count (send_list s') = eos_count sl"
       "close_sent s' = (close_sent s1 \<or> 0 < eos_count add)"
    show "send_transfer (b # sl) s bb remain tr (st, s', bb', remain', tr', tb')"
    proof (rule send_transferI [where add = "y # add" and pre = "b # pre"])
      show "y # add \<noteq> [] \<longrightarrow> int (sum_list (map blength (butlast (y # add)))) \<le> remain"
        using a(9) r by (cases "add = []") auto
      show "eos_count (y # add) + eos_count (send_list s') = eos_count (b # sl)"
        using a(11) b by (simp add: eos_count_Cons)
      show "close_sent s' = (close_sent s \<or> 0 < eos_count (y # add))"
        using a(12) f(4) by (auto simp: eos_count_Cons)
    qed (use a f y in simp_all)
  qed
qed

lemma recv_from_send_ok:
  assumes "list_all (\<lambda>b. blength b < 2 ^ 63 \<and> file_setaside R b = APR_SUCCESS
                         \<and> beamers R b = []) sl"
    and "remain < 2 ^ 63"
  shows "send_transfer sl s bb remain tr (recv_from_send R sl s bb remain tr tb)"
  using assms
proof (induction sl arbitrary: s bb remain tr tb)
  case Nil
  show ?case
    by (simp add: send_transfer_stop)
next
  case (Cons b sl)
  from Cons.prems(1) have bl: "blength b < 2 ^ 63" and fs: "file_setaside R b = APR_SUCCESS"
    and bm: "beamers R b = []"
    and tl: "list_all (\<lambda>b. blength b < 2 ^ 63 \<and> file_setaside R b = APR_SUCCESS
                         \<and> beamers R b = []) sl"
    by simp_all
  note IH = Cons.IH [OF tl]
  note rm = Cons.prems(2)
  show ?case
  proof (cases "0 \<le> remain \<and> \<not> (blength b > 0 \<and> remain \<le> 0)")
    case False
    then have "recv_from_send R (b # sl) s bb remain tr tb
        = (APR_SUCCESS, s\<lparr>send_list := b # sl\<rparr>, bb, remain, tr, tb)"
      by auto
    then show ?thesis by (simp add: send_transfer_stop)
  next
    case go: True
    then have r0: "0 \<le> remain" by simp
    have sub: "off_sub remain (blength b) = remain - int (blength b)"
      using r0 rm bl by (rule off_sub_exact)
    have sub0: "off_sub remain 0 = remain"
      using off_sub_exact [OF r0 rm, of 0] by simp
    have rm': "remain - int (blength b) < 2 ^ 63" using rm by simp
    show ?thesis
    proof (cases "APR_BUCKET_IS_METADATA b")
      case nm: False
      then have ne: "btype b \<noteq> EOS" by (auto simp: APR_BUCKET_IS_METADATA_def)
      show ?thesis
      proof (cases "blength b = 0")
        case True
        let ?s1 = "s\<lparr>hold_list := hold_list s @ [b]\<rparr>"
        have eq: "recv_from_send R (b # sl) s bb remain tr tb
            = recv_from_send R sl ?s1 bb remain tr tb"
          using go nm True by simp
        show ?thesis unfolding eq
          by (rule send_transfer_skip [OF IH [OF rm]]) (simp_all add: ne)
      next
        case len: False
        show ?thesis
        proof (cases "APR_BUCKET_IS_FILE b")
          case True
          let ?ng = "\<lparr>bid = next_addr s, btype = FILE, blength = blength b,
                      bstart = bstart b, frefcount = 1, bdata = 0\<rparr>"
          let ?s1 = "s\<lparr>next_addr := next_addr s + 1,
                       hold_list := hold_list s @ [b],
                       received_bytes := to_off (received_bytes s + int (blength b))\<rparr>"
          have eq: "recv_from_send R (b # sl) s bb remain tr tb
              = recv_from_send R sl ?s1 (bb @ [?ng]) (remain - int (blength ?ng)) (tr + 1) (tb + 1)"
            using go nm len True fs by (simp add: Let_def sub)
          show ?thesis unfolding eq
            by (rule send_transfer_app [OF IH]) (use rm r0 bl ne in simp_all)
        next
          case nf: False
          let ?y = "\<lparr>bid = next_addr s + 1, btype = BEAM, blength = blength b, bstart = 0,
                      frefcount = 0, bdata = next_addr s\<rparr>"
          obtain s2 where eq: "recv_from_send R (b # sl) s bb remain tr tb
              = recv_from_send R sl s2 (bb @ [?y]) (remain - int (blength ?y)) (tr + 1) (tb + 1)"
            and f: "closed s2 = closed s" "aborted s2 = aborted s" "recv_buffer s2 = recv_buffer s"
              "close_sent s2 = close_sent s"
            using go nm len nf by (simp add: Let_def sub h2_beam_bucket_create_def)
          show ?thesis unfolding eq
            by (rule send_transfer_app [OF IH]) (use rm r0 bl ne f in simp_all)
        qed
      qed
    next
      case m: True
      show ?thesis
      proof (cases "btype b = EOS \<or> btype b = FLUSH \<or> btype b = ERROR")
        case True
        let ?y = "new_bucket (next_addr s) (btype b)"
        let ?s2 = "s\<lparr>next_addr := next_addr s + 1,
                     close_sent := (close_sent s \<or> btype b = EOS),
                     hold_list := hold_list s @ [b],
                     received_bytes := to_off (received_bytes s + int (blength b))\<rparr>"
        have y0: "blength ?y = 0" "btype ?y = btype b" by (simp_all add: new_bucket_def)
        have eq: "recv_from_send R (b # sl) s bb remain tr tb
              = recv_from_send R sl ?s2 (bb @ [?y]) (remain - int (blength ?y)) (tr + 1) (tb + 1)"
          using go m True by (auto simp: Let_def sub0 new_bucket_def)
        show ?thesis unfolding eq
          by (rule send_transfer_app [OF IH]) (use rm r0 y0 in simp_all)
      next
        case False
        then have ne: "btype b \<noteq> EOS" by simp
        let ?s1 = "s\<lparr>hold_list := hold_list s @ [b],
                     received_bytes := to_off (received_bytes s + int (blength b))\<rparr>"
        have eq: "recv_from_send R (b # sl) s bb remain tr tb
            = recv_from_send R sl ?s1 bb remain tr (tb + 1)"
          using go m False bm by (auto simp: Let_def)
        show ?thesis unfolding eq
          by (rule send_transfer_skip [OF IH [OF rm]]) (simp_all add: ne)
      qed
    qed
  qed
qed

text \<open>The put-back loop splits at most the last bucket of a brigade that the two
  transfer loops have filled, and leaves its second piece in \<open>recv_buffer\<close>.\<close>

lemma one_piece_empty: "recv_buffer_empty s \<Longrightarrow> one_piece (recv_buffer s)"
  by (auto simp: recv_buffer_empty_def one_piece_def eos_count_def)

lemma recv_split_ok:
  assumes "recv_split s x point = (s1, h, t)" and "blength x < 2 ^ 63"
  shows "closed s1 = closed s \<and> aborted s1 = aborted s \<and> close_sent s1 = close_sent s
     \<and> send_list s1 = send_list s \<and> recv_buffer s1 = recv_buffer s
     \<and> btype h = btype x \<and> one_piece (Some t)"
  using assms
  by (auto simp: recv_split_def apr_bucket_split_def Let_def one_piece_def eos_count_def
        APR_BUCKET_IS_METADATA_def split: option.splits if_splits)

lemma split_ex_empty:
  "recv_buffer_empty s \<Longrightarrow> apr_brigade_split_ex s ts = Inr (s\<lparr>recv_buffer := Some ts\<rparr>)"
  by (auto simp: recv_buffer_empty_def apr_brigade_split_ex_def)

lemma put_back_ok:
  assumes "list_all (\<lambda>b. blength b < 2 ^ 63) xs" and "0 \<le> p" and "p < 2 ^ 63"
    and "xs \<noteq> [] \<longrightarrow> int (sum_list (map blength (butlast xs))) \<le> p"
    and "recv_buffer_empty s"
  shows "\<exists>s' ys r. put_back s pre xs p = Inr (s', pre @ ys, r)
      \<and> eos_count ys = eos_count xs \<and> (ys = []) = (xs = [])
      \<and> closed s' = closed s \<and> aborted s' = aborted s \<and> close_sent s' = close_sent s
      \<and> send_list s' = send_list s \<and> one_piece (recv_buffer s')"
  using assms(1-4)
proof (induction xs arbitrary: pre p)
  case Nil
  show ?case using one_piece_empty [OF assms(5)] by simp
next
  case (Cons x xs)
  let ?used = "if tx_mem_limits s then bucket_mem_used s x else to_off (int (blength x))"
  from Cons.prems(1) have bl: "blength x < 2 ^ 63" and tls: "list_all (\<lambda>b. blength b < 2 ^ 63) xs"
    by simp_all
  from bl have "int (blength x) < 2 ^ 63" by simp
  then have t: "to_off (int (blength x)) = int (blength x)" by (simp add: to_off_id)
  have u: "0 \<le> ?used" "?used \<le> int (blength x)"
    using bucket_mem_used_bounds [OF bl, of s] t by auto
  have "int (blength x) < 2 ^ 63" using bl by simp
  with u Cons.prems(2,3) have "- (2 ^ 63) \<le> p - ?used" "p - ?used < 2 ^ 63" by linarith+
  then have r: "to_off (p - ?used) = p - ?used" by (rule to_off_id)
  show ?case
  proof (cases "p - ?used < 0")
    case True
    have e: "xs = []"
    proof (rule ccontr)
      assume "xs \<noteq> []"
      with Cons.prems(4) have "int (blength x) \<le> p" by simp
      with u True show False by linarith
    qed
    obtain s1 h t where sp: "recv_split s x (to_size (to_off (int (blength x)) + (p - ?used))) = (s1, h, t)"
      by (metis prod_cases3)
    note f = recv_split_ok [OF sp bl]
    from f assms(5) have e1: "recv_buffer_empty s1" by (simp add: recv_buffer_empty_def)
    have pb: "put_back s pre (x # xs) p = Inr (s1\<lparr>recv_buffer := Some t\<rparr>, pre @ [h], p - ?used)"
      using True sp e unfolding put_back.simps Let_def r
      by (simp add: split_ex_empty [OF e1])
    show ?thesis unfolding pb using f e
      by (intro exI [of _ "s1\<lparr>recv_buffer := Some t\<rparr>"] exI [of _ "[h]"] exI [of _ "p - ?used"])
         (simp add: eos_count_Cons eos_count_Nil)
  next
    case False
    then have p0: "0 \<le> p - ?used" by simp
    have p1: "p - ?used < 2 ^ 63" using u Cons.prems(3) by linarith
    have p2: "xs \<noteq> [] \<longrightarrow> int (sum_list (map blength (butlast xs))) \<le> p - ?used"
      using Cons.prems(4) u by auto
    from Cons.IH [OF tls p0 p1 p2, of "pre @ [x]"]
    obtain s' ys r' where i: "put_back s (pre @ [x]) xs (p - ?used) = Inr (s', (pre @ [x]) @ ys, r')"
      "eos_count ys = eos_count xs" "closed s' = closed s" "aborted s' = aborted s"
      "close_sent s' = close_sent s" "send_list s' = send_list s" "one_piece (recv_buffer s')"
      by blast
    have pb: "put_back s pre (x # xs) p = Inr (s', pre @ (x # ys), r')"
      using False i(1) unfolding put_back.simps Let_def r by simp
    show ?thesis unfolding pb using i
      by (intro exI [of _ s'] exI [of _ "x # ys"] exI [of _ r'])
         (simp add: eos_count_Cons)
  qed
qed

text \<open>One call of \<open>h2_beam_receive\<close> on a closed beam, with an empty brigade: it
  returns, the beam is again as \<open>closed_beam_ok\<close> says, and the brigade holds an EOS
  bucket exactly if the call has latched \<open>close_sent\<close>.\<close>

lemma receive_loop_stages:
  assumes na: "\<not> aborted s"
    and a1: "(case recv_buffer s of
                None \<Rightarrow> (s, bb, remain, tr)
              | Some rb \<Rightarrow>
                  (case recv_from_buffer rb bb remain tr of
                     (rb', bb', remain', tr') \<Rightarrow>
                       (s\<lparr>recv_buffer := Some rb'\<rparr>, bb', remain', tr')))
             = (s1, bb1, remain1, tr1)"
    and a2: "recv_from_send R (send_list s1) s1 bb1 remain1 tr1 tb
             = (APR_SUCCESS, s2, bb2, remain2, tr2, tb2)"
    and a3: "(if remain2 < 0 then put_back s2 [] bb2 readbytes else Inr (s2, bb2, remain2))
             = Inr (s3, bb3, remain3)"
    and c: "closed s3"
  shows "\<exists>s5. receive_loop (Suc fuel) R s bb block readbytes remain tr tb env =
       Inr (if buffer_is_empty s3 \<and> \<not> close_sent s3 then APR_SUCCESS
            else if tr2 = 0 then APR_EOF else APR_SUCCESS,
            s5,
            if buffer_is_empty s3 \<and> \<not> close_sent s3
            then bb3 @ [new_bucket (next_addr s3) EOS] else bb3,
            env)
      \<and> closed s5 \<and> aborted s5 = aborted s3 \<and> send_list s5 = send_list s3
      \<and> recv_buffer s5 = recv_buffer s3
      \<and> close_sent s5 = (close_sent s3 \<or> buffer_is_empty s3)"
  unfolding receive_loop.simps a1 prod.case a2 a3
  using na c by (cases "buffer_is_empty s3"; cases "close_sent s3"; cases "tr2 = 0") (simp_all add: Let_def)

lemma list_all_suffix: "list_all P (pre @ xs) \<Longrightarrow> list_all P xs"
  by simp

lemma closed_beam_okI:
  assumes "closed s" "\<not> aborted s"
    "list_all (\<lambda>b. blength b < 2 ^ 63 \<and> file_setaside R b = APR_SUCCESS
                      \<and> beamers R b = []) (send_list s)"
    "one_piece (recv_buffer s)"
    "eos_count (send_list s) \<le> (if close_sent s then 0 else 1)"
  shows "closed_beam_ok R s"
  unfolding closed_beam_ok_def by (intro conjI) (rule assms)+

lemma buffer_step:
  assumes op: "one_piece (recv_buffer s)" and r: "0 < r" "r < 2 ^ 63"
  shows "\<exists>s1 bb1.
      (case recv_buffer s of
         None \<Rightarrow> (s, [], r, 0)
       | Some rb \<Rightarrow>
           (case recv_from_buffer rb [] r 0 of
              (rb', bb', remain', tr') \<Rightarrow>
                (s\<lparr>recv_buffer := Some rb'\<rparr>, bb', remain', tr')))
        = (s1, bb1, r - int (sum_list (map blength bb1)), length bb1)
      \<and> closed s1 = closed s \<and> aborted s1 = aborted s \<and> close_sent s1 = close_sent s
      \<and> send_list s1 = send_list s \<and> recv_buffer_empty s1
      \<and> length bb1 \<le> 1 \<and> eos_count bb1 = 0 \<and> list_all (\<lambda>b. blength b < 2 ^ 63) bb1"
proof (cases "recv_buffer s")
  case None
  then show ?thesis
    by (intro exI [of _ s] exI [of _ "[]"]) (simp add: recv_buffer_empty_def eos_count_Nil)
next
  case (Some rb)
  show ?thesis
  proof (cases rb)
    case Nil
    with Some show ?thesis
      by (intro exI [of _ "s\<lparr>recv_buffer := Some []\<rparr>"] exI [of _ "[]"])
         (simp add: recv_buffer_empty_def eos_count_Nil)
  next
    case (Cons x xs)
    with Some op have xs: "xs = []" and x: "blength x < 2 ^ 63" "eos_count [x] = 0"
      by (auto simp: one_piece_def)
    have sub: "off_sub r (blength x) = r - int (blength x)"
      using r x(1) by (intro off_sub_exact) simp_all
    show ?thesis using Some Cons xs x r
      by (intro exI [of _ "s\<lparr>recv_buffer := Some []\<rparr>"] exI [of _ "[x]"])
         (simp add: recv_buffer_empty_def sub)
  qed
qed

lemma receive_loop_closed:
  assumes ok: "closed_beam_ok R s" and r: "0 < r" "r < 2 ^ 63"
  shows "\<exists>rv s' bb'. receive_loop (Suc fuel) R s [] block r r 0 0 env = Inr (rv, s', bb', env)
     \<and> closed_beam_ok R s'
     \<and> eos_count bb' = (if close_sent s' \<and> \<not> close_sent s then 1 else 0)
     \<and> (close_sent s \<longrightarrow> close_sent s') \<and> (drained s' \<longrightarrow> close_sent s')
     \<and> (rv = APR_SUCCESS \<or> rv = APR_EOF \<and> bb' = [])"
proof -
  from ok have c: "closed s" and na: "\<not> aborted s"
    and sl: "list_all (\<lambda>b. blength b < 2 ^ 63 \<and> file_setaside R b = APR_SUCCESS
                      \<and> beamers R b = []) (send_list s)"
    and op: "one_piece (recv_buffer s)"
    and ec: "eos_count (send_list s) \<le> (if close_sent s then 0 else 1)"
    by (simp_all add: closed_beam_ok_def)
  from buffer_step [OF op r] obtain s1 bb1 where
    a1: "(case recv_buffer s of
         None \<Rightarrow> (s, [], r, 0)
       | Some rb \<Rightarrow>
           (case recv_from_buffer rb [] r 0 of
              (rb', bb', remain', tr') \<Rightarrow>
                (s\<lparr>recv_buffer := Some rb'\<rparr>, bb', remain', tr')))
        = (s1, bb1, r - int (sum_list (map blength bb1)), length bb1)"
    and f1: "closed s1 = closed s" "aborted s1 = aborted s" "close_sent s1 = close_sent s"
      "send_list s1 = send_list s" "recv_buffer_empty s1"
    and b1: "length bb1 \<le> 1" "eos_count bb1 = 0" "list_all (\<lambda>b. blength b < 2 ^ 63) bb1"
    by (elim exE conjE)
  let ?r1 = "r - int (sum_list (map blength bb1))"
  have rm1: "?r1 < 2 ^ 63" using r by simp
  have sl1: "list_all (\<lambda>b. blength b < 2 ^ 63 \<and> file_setaside R b = APR_SUCCESS
                      \<and> beamers R b = []) (send_list s1)"
    using sl f1(4) by simp
  obtain st s2 bb2 remain2 tr2 tb2 where
    a2: "recv_from_send R (send_list s1) s1 bb1 ?r1 (length bb1) 0
         = (st, s2, bb2, remain2, tr2, tb2)"
    by (metis prod_cases6)
  from recv_from_send_ok [OF sl1 rm1, of s1 bb1 "length bb1" 0]
  have "send_transfer (send_list s1) s1 bb1 ?r1 (length bb1) (st, s2, bb2, remain2, tr2, tb2)"
    unfolding a2 .
  then obtain add pre where
    t: "st = APR_SUCCESS" "closed s2 = closed s1" "aborted s2 = aborted s1"
    "recv_buffer s2 = recv_buffer s1"
    "bb2 = bb1 @ add" "send_list s1 = pre @ send_list s2"
    "remain2 = ?r1 - int (sum_list (map blength add))"
    "tr2 = length bb1 + length add"
    "add \<noteq> [] \<longrightarrow> int (sum_list (map blength (butlast add))) \<le> ?r1"
    "list_all (\<lambda>b. blength b < 2 ^ 63) add"
    "eos_count add + eos_count (send_list s2) = eos_count (send_list s1)"
    "close_sent s2 = (close_sent s1 \<or> 0 < eos_count add)"
    by (rule send_transferE)
  have e2: "recv_buffer_empty s2" using f1(5) t(4) by (simp add: recv_buffer_empty_def)
  have "\<exists>s3 bb3 remain3.
      (if remain2 < 0 then put_back s2 [] bb2 r else Inr (s2, bb2, remain2))
        = Inr (s3, bb3, remain3)
      \<and> eos_count bb3 = eos_count bb2 \<and> (bb3 = []) = (bb2 = [])
      \<and> closed s3 = closed s2 \<and> aborted s3 = aborted s2 \<and> close_sent s3 = close_sent s2
      \<and> send_list s3 = send_list s2 \<and> one_piece (recv_buffer s3)"
  proof (cases "remain2 < 0")
    case True
    have l: "list_all (\<lambda>b. blength b < 2 ^ 63) bb2" using b1(3) t(5,10) by simp
    have bl: "butlast bb1 = []" using b1(1) by (cases bb1) simp_all
    have s: "bb2 \<noteq> [] \<longrightarrow> int (sum_list (map blength (butlast bb2))) \<le> r"
    proof (cases "add = []")
      case True
      with t(5) bl r show ?thesis by simp
    next
      case False
      with t(5,9) show ?thesis by (simp add: butlast_append)
    qed
    from r have r0: "0 \<le> r" by simp
    from put_back_ok [OF l r0 r(2) s e2, of "[]"] True show ?thesis by simp
  next
    case False
    then show ?thesis using one_piece_empty [OF e2] by simp
  qed
  then obtain s3 bb3 remain3 where
    a3: "(if remain2 < 0 then put_back s2 [] bb2 r else Inr (s2, bb2, remain2))
        = Inr (s3, bb3, remain3)"
    and f3: "eos_count bb3 = eos_count bb2" "(bb3 = []) = (bb2 = [])"
      "closed s3 = closed s2" "aborted s3 = aborted s2" "close_sent s3 = close_sent s2"
      "send_list s3 = send_list s2" "one_piece (recv_buffer s3)"
    by (elim exE conjE)
  have c3: "closed s3" using c f1(1) t(2) f3(3) by simp
  from receive_loop_stages [OF na a1 a2 [unfolded t(1)] a3 c3, of fuel block env]
  obtain s5 where
    rl: "receive_loop (Suc fuel) R s [] block r r 0 0 env =
       Inr (if buffer_is_empty s3 \<and> \<not> close_sent s3 then APR_SUCCESS
            else if tr2 = 0 then APR_EOF else APR_SUCCESS,
            s5,
            if buffer_is_empty s3 \<and> \<not> close_sent s3
            then bb3 @ [new_bucket (next_addr s3) EOS] else bb3,
            env)"
    and f5: "closed s5" "aborted s5 = aborted s3" "send_list s5 = send_list s3"
      "recv_buffer s5 = recv_buffer s3"
      "close_sent s5 = (close_sent s3 \<or> buffer_is_empty s3)"
    by (elim exE conjE)
  have na5: "\<not> aborted s5" using na f1(2) t(3) f3(4) f5(2) by simp
  have sl5: "list_all (\<lambda>b. blength b < 2 ^ 63 \<and> file_setaside R b = APR_SUCCESS
                      \<and> beamers R b = []) (send_list s5)"
    using sl1 unfolding t(6) f5(3) f3(6) by (rule list_all_suffix)
  have op5: "one_piece (recv_buffer s5)" using f3(7) f5(4) by simp
  have cs3: "close_sent s3 = (close_sent s \<or> 0 < eos_count add)"
    using f3(5) t(12) f1(3) by simp
  have ecs: "eos_count add + eos_count (send_list s5) = eos_count (send_list s)"
    using t(11) f1(4) f3(6) f5(3) by simp
  have eb3: "eos_count bb3 = eos_count add"
    using f3(1) t(5) b1(2) by (simp add: eos_count_append)
  have be: "buffer_is_empty s3 \<Longrightarrow> send_list s5 = []"
    using f5(3) by (simp add: buffer_is_empty_def)
  have ec5: "eos_count (send_list s5) \<le> (if close_sent s5 then 0 else 1)"
  proof (cases "close_sent s3")
    case True
    with cs3 ecs ec f5(5) show ?thesis by (auto split: if_splits)
  next
    case n3: False
    show ?thesis
    proof (cases "buffer_is_empty s3")
      case True
      with be show ?thesis by (simp add: eos_count_Nil)
    next
      case False
      with n3 cs3 ecs ec f5(5) show ?thesis by (auto split: if_splits)
    qed
  qed
  have ok5: "closed_beam_ok R s5"
    using f5(1) na5 sl5 op5 ec5 by (rule closed_beam_okI)
  have cnt: "eos_count (if buffer_is_empty s3 \<and> \<not> close_sent s3
            then bb3 @ [new_bucket (next_addr s3) EOS] else bb3)
        = (if close_sent s5 \<and> \<not> close_sent s then 1 else 0)"
    using cs3 ecs ec eb3 f5(5)
    by (auto simp: eos_count_append eos_count_Cons eos_count_Nil new_bucket_def
          split: if_splits)
  have mono: "close_sent s \<longrightarrow> close_sent s5" using cs3 f5(5) by simp
  have dr: "drained s5 \<longrightarrow> close_sent s5"
    using f5(3,4,5) by (auto simp: drained_def buffer_is_empty_def recv_buffer_empty_def)
  have rv: "(if buffer_is_empty s3 \<and> \<not> close_sent s3 then APR_SUCCESS
            else if tr2 = 0 then APR_EOF else APR_SUCCESS) = APR_SUCCESS
       \<or> (if buffer_is_empty s3 \<and> \<not> close_sent s3 then APR_SUCCESS
            else if tr2 = 0 then APR_EOF else APR_SUCCESS) = APR_EOF
         \<and> (if buffer_is_empty s3 \<and> \<not> close_sent s3
            then bb3 @ [new_bucket (next_addr s3) EOS] else bb3) = []"
    using t(5,8) f3(2) by auto
  show ?thesis unfolding rl
    using ok5 cnt mono dr rv by (intro exI conjI) (rule refl, assumption+)
qed

lemma receive_loop_closed_neg:
  assumes ok: "closed_beam_ok R s" and r: "r < 0"
  shows "\<exists>rv s' bb'. receive_loop (Suc fuel) R s [] block r r 0 0 env = Inr (rv, s', bb', env)
     \<and> closed_beam_ok R s'
     \<and> eos_count bb' = (if close_sent s' \<and> \<not> close_sent s then 1 else 0)
     \<and> (close_sent s \<longrightarrow> close_sent s') \<and> (drained s' \<longrightarrow> close_sent s')
     \<and> (rv = APR_SUCCESS \<or> rv = APR_EOF \<and> bb' = [])"
proof -
  from ok have c: "closed s" and na: "\<not> aborted s"
    and sl: "list_all (\<lambda>b. blength b < 2 ^ 63 \<and> file_setaside R b = APR_SUCCESS
                      \<and> beamers R b = []) (send_list s)"
    and op: "one_piece (recv_buffer s)"
    and ec: "eos_count (send_list s) \<le> (if close_sent s then 0 else 1)"
    by (simp_all add: closed_beam_ok_def)
  have rb: "recv_from_buffer rb [] r 0 = (rb, [], r, 0)" for rb
    using r by (cases rb) simp_all
  have a1: "(case recv_buffer s of
         None \<Rightarrow> (s, [], r, 0)
       | Some rb \<Rightarrow>
           (case recv_from_buffer rb [] r 0 of
              (rb', bb', remain', tr') \<Rightarrow>
                (s\<lparr>recv_buffer := Some rb'\<rparr>, bb', remain', tr')))
        = (s, [], r, 0)"
    by (cases "recv_buffer s") (simp_all add: rb recv_buffer_same)
  have a2: "recv_from_send R (send_list s) s [] r 0 0 = (APR_SUCCESS, s, [], r, 0, 0)"
    using r by (cases "send_list s") (simp_all add: send_list_same)
  have a3: "(if r < 0 then put_back s [] [] r else Inr (s, [], r)) = Inr (s, [], r)"
    by simp
  from receive_loop_stages [OF na a1 a2 a3 c, of fuel block env]
  obtain s5 where
    rl: "receive_loop (Suc fuel) R s [] block r r 0 0 env =
       Inr (if buffer_is_empty s \<and> \<not> close_sent s then APR_SUCCESS else APR_EOF,
            s5,
            if buffer_is_empty s \<and> \<not> close_sent s
            then [new_bucket (next_addr s) EOS] else [],
            env)"
    and f5: "closed s5" "aborted s5 = aborted s" "send_list s5 = send_list s"
      "recv_buffer s5 = recv_buffer s"
      "close_sent s5 = (close_sent s \<or> buffer_is_empty s)"
    by (elim exE conjE) simp
  have na5: "\<not> aborted s5" using na f5(2) by simp
  have sl5: "list_all (\<lambda>b. blength b < 2 ^ 63 \<and> file_setaside R b = APR_SUCCESS
                      \<and> beamers R b = []) (send_list s5)"
    using sl f5(3) by simp
  have op5: "one_piece (recv_buffer s5)" using op f5(4) by simp
  have ec5: "eos_count (send_list s5) \<le> (if close_sent s5 then 0 else 1)"
  proof (cases "buffer_is_empty s")
    case True
    then have "send_list s5 = []" using f5(3) by (simp add: buffer_is_empty_def)
    then show ?thesis by (simp add: eos_count_Nil)
  next
    case False
    with ec f5(3,5) show ?thesis by simp
  qed
  have ok5: "closed_beam_ok R s5"
    using f5(1) na5 sl5 op5 ec5 by (rule closed_beam_okI)
  have cnt: "eos_count (if buffer_is_empty s \<and> \<not> close_sent s
            then [new_bucket (next_addr s) EOS] else [])
        = (if close_sent s5 \<and> \<not> close_sent s then 1 else 0)"
    using f5(5) by (auto simp: eos_count_Cons eos_count_Nil new_bucket_def)
  have mono: "close_sent s \<longrightarrow> close_sent s5" using f5(5) by simp
  have dr: "drained s5 \<longrightarrow> close_sent s5"
    using f5(3,4,5) by (auto simp: drained_def buffer_is_empty_def recv_buffer_empty_def)
  have rv: "(if buffer_is_empty s \<and> \<not> close_sent s then APR_SUCCESS else APR_EOF) = APR_SUCCESS
       \<or> (if buffer_is_empty s \<and> \<not> close_sent s then APR_SUCCESS else APR_EOF) = APR_EOF
         \<and> (if buffer_is_empty s \<and> \<not> close_sent s
            then [new_bucket (next_addr s) EOS] else []) = []"
    by auto
  show ?thesis unfolding rl
    using ok5 cnt mono dr rv by (intro exI conjI) (rule refl, assumption+)
qed

lemma receive_step:
  assumes ok: "closed_beam_ok R s" and r: "readbytes < 2 ^ 63"
  shows "\<exists>rv s' bb'. h2_beam_receive (Suc fuel) R s [] block readbytes env = Inr (rv, s', bb', env)
     \<and> closed_beam_ok R s'
     \<and> eos_count bb' = (if close_sent s' \<and> \<not> close_sent s then 1 else 0)
     \<and> (close_sent s \<longrightarrow> close_sent s') \<and> (drained s' \<longrightarrow> close_sent s')
     \<and> (rv = APR_SUCCESS \<or> rv = APR_EOF \<and> bb' = [])"
proof (cases "readbytes \<le> 0")
  case True
  then have v: "(if readbytes \<le> 0 then to_off (int APR_SIZE_MAX) else readbytes) = - 1"
    by (simp add: unbounded_readbytes)
  have e: "h2_beam_receive (Suc fuel) R s [] block readbytes env
      = receive_loop (Suc fuel) R s [] block (- 1) (- 1) 0 0 env"
    unfolding h2_beam_receive_def Let_def v by (rule refl)
  show ?thesis unfolding e by (rule receive_loop_closed_neg [OF ok]) simp
next
  case False
  then have v: "(if readbytes \<le> 0 then to_off (int APR_SIZE_MAX) else readbytes) = readbytes"
    by simp
  have e: "h2_beam_receive (Suc fuel) R s [] block readbytes env
      = receive_loop (Suc fuel) R s [] block readbytes readbytes 0 0 env"
    unfolding h2_beam_receive_def Let_def v by (rule refl)
  from False have p: "0 < readbytes" by simp
  show ?thesis unfolding e by (rule receive_loop_closed [OF ok p r])
qed

lemma eos_received_Cons: "eos_received ((rv, bb1) # rs) = eos_count bb1 + eos_received rs"
  unfolding eos_received_def by simp

lemma latch_sum:
  assumes "(x::nat) = (if c' \<and> \<not> c1 then 1 else 0)" and "c1 \<longrightarrow> c'"
    and "(y::nat) = (if c1 \<and> \<not> c then 1 else 0)" and "c \<longrightarrow> c1"
  shows "y + x = (if c' \<and> \<not> c then 1 else 0)"
  using assms by (cases c; cases c1; cases c') simp_all

lemma receive_calls_ok:
  assumes "closed_beam_ok R s" and "calls_ok cs"
  shows "\<exists>s' rs. receive_calls fuel R s cs = Inr (s', rs) \<and> closed_beam_ok R s'
     \<and> eos_received rs = (if close_sent s' \<and> \<not> close_sent s then 1 else 0)
     \<and> (close_sent s \<longrightarrow> close_sent s')
     \<and> (drained s' \<and> \<not> close_sent s' \<longrightarrow> cs = []) \<and> (cs = [] \<longrightarrow> s' = s)
     \<and> list_all (\<lambda>r. fst r = APR_SUCCESS \<or> fst r = APR_EOF \<and> snd r = []) rs"
  using assms
proof (induction cs arbitrary: s)
  case Nil
  have e: "receive_calls fuel R s [] = Inr (s, [])" by simp
  have z: "eos_received [] = (if close_sent s \<and> \<not> close_sent s then 1 else 0)"
    by (simp add: eos_received_def)
  have l: "list_all (\<lambda>r. fst r = APR_SUCCESS \<or> fst r = APR_EOF \<and> snd r = [])
             ([] :: (apr_status \<times> bucket list) list)"
    by simp
  show ?case unfolding e
    using Nil.prems(1) z l by (intro exI [of _ s] exI [of _ "[]"] conjI impI) (rule refl, assumption+, simp_all)
next
  case (Cons c cs)
  obtain block readbytes where c: "c = (block, readbytes)" by (cases c)
  from Cons.prems(2) have r: "readbytes < 2 ^ 63" and cs: "calls_ok cs"
    by (simp_all add: calls_ok_def c)
  from receive_step [OF Cons.prems(1) r, of fuel block "[]"]
  obtain rv s1 bb1 where
    st: "h2_beam_receive (Suc fuel) R s [] block readbytes [] = Inr (rv, s1, bb1, [])"
    and ok1: "closed_beam_ok R s1"
    and f1: "eos_count bb1 = (if close_sent s1 \<and> \<not> close_sent s then 1 else 0)"
      "close_sent s \<longrightarrow> close_sent s1" "drained s1 \<longrightarrow> close_sent s1"
      "rv = APR_SUCCESS \<or> rv = APR_EOF \<and> bb1 = []"
    by (elim exE conjE)
  from Cons.IH [OF ok1 cs]
  obtain s' rs where
    rc: "receive_calls fuel R s1 cs = Inr (s', rs)" and ok': "closed_beam_ok R s'"
    and f: "eos_received rs = (if close_sent s' \<and> \<not> close_sent s1 then 1 else 0)"
      "close_sent s1 \<longrightarrow> close_sent s'"
      "drained s' \<and> \<not> close_sent s' \<longrightarrow> cs = []" "cs = [] \<longrightarrow> s' = s1"
      "list_all (\<lambda>r. fst r = APR_SUCCESS \<or> fst r = APR_EOF \<and> snd r = []) rs"
    by (elim exE conjE)
  have e: "receive_calls fuel R s (c # cs) = Inr (s', (rv, bb1) # rs)"
    unfolding c receive_calls.simps st sum.case prod.case rc by (rule refl)
  have cnt: "eos_received ((rv, bb1) # rs) = (if close_sent s' \<and> \<not> close_sent s then 1 else 0)"
    unfolding eos_received_Cons using f(1,2) f1(1,2) by (rule latch_sum)
  have mono: "close_sent s \<longrightarrow> close_sent s'" using f(2) f1(2) by simp
  have dr: "drained s' \<and> \<not> close_sent s' \<longrightarrow> c # cs = []"
  proof
    assume a: "drained s' \<and> \<not> close_sent s'"
    with f(3) have "cs = []" by simp
    with f(4) have "s' = s1" by simp
    with a f1(3) show "c # cs = []" by simp
  qed
  have nn: "c # cs = [] \<longrightarrow> s' = s" by simp
  have rvs: "list_all (\<lambda>r. fst r = APR_SUCCESS \<or> fst r = APR_EOF \<and> snd r = []) ((rv, bb1) # rs)"
    using f(5) f1(4) by simp
  show ?case unfolding e
    using ok' cnt mono dr nn rvs by (intro exI conjI) (rule refl, assumption+)
qed

lemma drained_receive:
  assumes "closed s" and "\<not> aborted s" and "drained s" and "close_sent s"
    and "0 < readbytes \<or> bb = []"
  shows "h2_beam_receive (Suc fuel) R s bb block readbytes env = Inr (APR_EOF, s, bb, env)"
  using assms unfolding h2_beam_receive_def Let_def drained_def
  by (subst receive_loop_empty) (auto simp: unbounded_readbytes)

text \<open>
  Claim C3, as the code has it. Let the beam be closed by the sender and not aborted,
  with at most one EOS bucket in \<open>send_list\<close> (none if \<open>close_sent\<close> is latched),
  at most the one piece of a data bucket that an earlier receive put back in
  \<open>recv_buffer\<close>, bucket lengths below \<open>2^63\<close>, no file setaside that fails and no
  beamer function;
  and let receive be called any number of times, each time with an empty brigade and
  any byte limit and blocking mode. Then every call returns: with success, or with
  \<open>APR_EOF\<close> and an empty brigade. Over all the calls the brigades hold exactly one
  EOS bucket if \<open>close_sent\<close> has been latched by them (by the EOS bucket of the
  sender in the second loop, or by the one made when the beam is found closed and
  empty) and none otherwise; \<open>close_sent\<close> stays latched. Once \<open>send_list\<close> and
  \<open>recv_buffer\<close> are drained after a call, \<open>close_sent\<close> is latched, and every
  receive after that, with a positive byte limit or an empty brigade, returns
  \<open>APR_EOF\<close>, adds no bucket and leaves the beam as it is.
\<close>

theorem eos_once_then_eof:
  assumes "closed_beam_ok R s" and "calls_ok cs"
  shows "\<exists>s' rs. receive_calls fuel R s cs = Inr (s', rs) \<and> closed_beam_ok R s'
     \<and> eos_received rs = (if close_sent s' \<and> \<not> close_sent s then 1 else 0)
     \<and> (close_sent s \<longrightarrow> close_sent s')
     \<and> list_all (\<lambda>r. fst r = APR_SUCCESS \<or> fst r = APR_EOF \<and> snd r = []) rs
     \<and> (cs \<noteq> [] \<and> drained s' \<longrightarrow>
          close_sent s'
          \<and> (\<forall>fuel2 bb2 block2 rb2 env2. 0 < rb2 \<or> bb2 = [] \<longrightarrow>
                h2_beam_receive (Suc fuel2) R s' bb2 block2 rb2 env2
                  = Inr (APR_EOF, s', bb2, env2)))"
proof -
  from receive_calls_ok [OF assms, of fuel]
  obtain s' rs where
    rc: "receive_calls fuel R s cs = Inr (s', rs)" and ok': "closed_beam_ok R s'"
    and f: "eos_received rs = (if close_sent s' \<and> \<not> close_sent s then 1 else 0)"
      "close_sent s \<longrightarrow> close_sent s'"
      "drained s' \<and> \<not> close_sent s' \<longrightarrow> cs = []" "cs = [] \<longrightarrow> s' = s"
      "list_all (\<lambda>r. fst r = APR_SUCCESS \<or> fst r = APR_EOF \<and> snd r = []) rs"
    by (elim exE conjE)
  from ok' have c: "closed s'" and na: "\<not> aborted s'" by (simp_all add: closed_beam_ok_def)
  have last: "cs \<noteq> [] \<and> drained s' \<longrightarrow>
          close_sent s'
          \<and> (\<forall>fuel2 bb2 block2 rb2 env2. 0 < rb2 \<or> bb2 = [] \<longrightarrow>
                h2_beam_receive (Suc fuel2) R s' bb2 block2 rb2 env2
                  = Inr (APR_EOF, s', bb2, env2))"
  proof
    assume a: "cs \<noteq> [] \<and> drained s'"
    with f(3) have l: "close_sent s'" by auto
    from a have d: "drained s'" by simp
    have "h2_beam_receive (Suc fuel2) R s' bb2 block2 rb2 env2 = Inr (APR_EOF, s', bb2, env2)"
      if "0 < rb2 \<or> bb2 = []" for fuel2 and bb2 :: "bucket list" and block2 and rb2 :: int and env2
      using c na d l that by (rule drained_receive)
    with l show "close_sent s'
          \<and> (\<forall>fuel2 bb2 block2 rb2 env2. 0 < rb2 \<or> bb2 = [] \<longrightarrow>
                h2_beam_receive (Suc fuel2) R s' bb2 block2 rb2 env2
                  = Inr (APR_EOF, s', bb2, env2))"
      by simp
  qed
  show ?thesis unfolding rc
    using ok' f(1,2,5) last by (intro exI conjI) (rule refl, assumption+)
qed

theorem eos_once_then_eof_witness:
  "closed_beam_ok recv_ok closed_with_eos
   \<and> calls_ok [(APR_NONBLOCK_READ, 10), (APR_NONBLOCK_READ, 1000), (APR_BLOCK_READ, 0)]
   \<and> \<not> close_sent closed_with_eos
   \<and> (\<exists>s'. receive_calls 0 recv_ok closed_with_eos
              [(APR_NONBLOCK_READ, 10), (APR_NONBLOCK_READ, 1000), (APR_BLOCK_READ, 0)]
            = Inr (s', [(APR_SUCCESS, [proxy_bucket 101 100 10]),
                        (APR_SUCCESS, [(proxy_bucket 102 100 90)\<lparr>bstart := 10\<rparr>,
                                       new_bucket 103 EOS]),
                        (APR_EOF, [])])
          \<and> eos_received [(APR_SUCCESS, [proxy_bucket 101 100 10]),
                        (APR_SUCCESS, [(proxy_bucket 102 100 90)\<lparr>bstart := 10\<rparr>,
                                       new_bucket 103 EOS]),
                        (APR_EOF, [])] = 1
          \<and> drained s' \<and> close_sent s'
          \<and> h2_beam_receive (Suc 0) recv_ok s' [] APR_BLOCK_READ 10 [] = Inr (APR_EOF, s', [], []))"
proof -
  let ?cs = "[(APR_NONBLOCK_READ, 10), (APR_NONBLOCK_READ, 1000), (APR_BLOCK_READ, 0 :: int)]"
  let ?rs = "[(APR_SUCCESS, [proxy_bucket 101 100 10]),
              (APR_SUCCESS, [(proxy_bucket 102 100 90)\<lparr>bstart := 10\<rparr>, new_bucket 103 EOS]),
              (APR_EOF, [])]"
  have h1: "closed_beam_ok recv_ok closed_with_eos"
    by (simp add: closed_beam_ok_def one_piece_def closed_with_eos_def evals eos_count_def)
  have h2: "calls_ok ?cs" by (simp add: calls_ok_def)
  have n: "\<not> close_sent closed_with_eos" by (simp add: closed_with_eos_def evals)
  have ev: "\<exists>s'. receive_calls 0 recv_ok closed_with_eos ?cs = Inr (s', ?rs) \<and> drained s'"
    by (simp add: evals closed_with_eos_def proxy_bucket_def drained_def recv_buffer_empty_def)
  then obtain s0 where e0: "receive_calls 0 recv_ok closed_with_eos ?cs = Inr (s0, ?rs)"
    and d0: "drained s0" by (elim exE conjE)
  from eos_once_then_eof [OF h1 h2, of 0] obtain s' rs where
    rc: "receive_calls 0 recv_ok closed_with_eos ?cs = Inr (s', rs)"
    and cnt: "eos_received rs = (if close_sent s' \<and> \<not> close_sent closed_with_eos then 1 else 0)"
    and last: "?cs \<noteq> [] \<and> drained s' \<longrightarrow>
          close_sent s'
          \<and> (\<forall>fuel2 bb2 block2 rb2 env2. 0 < rb2 \<or> bb2 = [] \<longrightarrow>
                h2_beam_receive (Suc fuel2) recv_ok s' bb2 block2 rb2 env2
                  = Inr (APR_EOF, s', bb2, env2))"
    by (elim exE conjE)
  from rc e0 have q: "s' = s0" "rs = ?rs" by simp_all
  from last d0 have l: "close_sent s0"
    and eof: "\<forall>fuel2 bb2 block2 rb2 env2. 0 < rb2 \<or> bb2 = [] \<longrightarrow>
                h2_beam_receive (Suc fuel2) recv_ok s0 bb2 block2 rb2 env2
                  = Inr (APR_EOF, s0, bb2, env2)"
    unfolding q by simp_all
  from eof have e1: "h2_beam_receive (Suc 0) recv_ok s0 [] APR_BLOCK_READ 10 [] = Inr (APR_EOF, s0, [], [])"
    by simp
  from cnt l n have c1: "eos_received ?rs = 1" unfolding q by simp
  show ?thesis
    using h1 h2 n e0 c1 d0 l e1 by (intro conjI exI [of _ s0])
qed

text \<open>Against claim C3 as it is written: a beam that is closed and drained, but aborted
  as well, gives \<open>APR_ECONNABORTED\<close> and no EOS bucket; and a sender that sends two EOS
  buckets and closes has the receiver given both of them, in one call.\<close>

theorem no_eos_when_aborted_two_when_queued_twice:
  "h2_beam_receive 1 recv_ok ((h2_beam_create 0 0)\<lparr>closed := True, aborted := True\<rparr>) []
       APR_NONBLOCK_READ 100 []
     = Inr (APR_ECONNABORTED, (h2_beam_create 0 0)\<lparr>closed := True, aborted := True\<rparr>, [], [])
   \<and> h2_beam_send (Suc (Suc 0)) apr_ok (h2_beam_create 0 0) True
        (Some [new_bucket 1 EOS, new_bucket 2 EOS]) APR_BLOCK_READ []
     = Inr (APR_SUCCESS,
            (h2_beam_create 0 0)\<lparr>send_list := [new_bucket 1 EOS, new_bucket 2 EOS]\<rparr>,
            Some [], [])
   \<and> h2_beam_close
        ((h2_beam_create 0 0)\<lparr>send_list := [new_bucket 1 EOS, new_bucket 2 EOS]\<rparr>) True
     = Inr (APR_SUCCESS, closed_with_two_eos)
   \<and> h2_beam_receive 1 recv_ok closed_with_two_eos [] APR_NONBLOCK_READ 100 []
     = Inr (APR_SUCCESS,
            closed_with_two_eos\<lparr>send_list := [],
               hold_list := [new_bucket 1 EOS, new_bucket 2 EOS],
               close_sent := True, next_addr := 102\<rparr>,
            [new_bucket 100 EOS, new_bucket 101 EOS], [])
   \<and> eos_count [new_bucket 100 EOS, new_bucket 101 EOS] = 2"
  by (simp add: evals closed_with_two_eos_def eos_count_def)

end
